theory Spec2Isabelle
  imports Complex_Main "HOL-Library.Sublist" "HOL-Library.Multiset"
    "HOL-Library.Char_ord" "HOL-Library.List_Lexorder"
begin

section \<open>Local Lore: the aggregation core of \<^verbatim>\<open>main.py\<close>\<close>

text \<open>
  The development embeds the client methods, the three endpoint handlers and the three
  text-derivation functions of \<^verbatim>\<open>main.py\<close>.

  \<^item> A Python \<^verbatim>\<open>str\<close> is a \<open>string\<close>; a \<open>char\<close> stands for the code point of the
    same number, so the texts covered are those over U+0000 .. U+00FF and \<open>length\<close> is
    Python's \<^verbatim>\<open>len\<close>. The character classes below are Python's on that range.
  \<^item> Python's unbounded \<^verbatim>\<open>int\<close> is \<open>int\<close>.
  \<^item> A decoded JSON document is a value of \<open>json\<close>; an object is an association list
    in insertion order.
  \<^item> Every exception is a value of \<open>error\<close>; a computation that may raise returns
    \<open>error + 'a\<close> with \<open>Inl\<close> the exception.
\<close>

subsection \<open>Characters and strings\<close>

text \<open>\<^verbatim>\<open>str.isspace\<close> on one character, which is also what \<^verbatim>\<open>\s\<close> matches in a
  \<^verbatim>\<open>str\<close> pattern: TAB..CR, FS..US, space, NEL and the no-break space.\<close>

definition is_space :: "char \<Rightarrow> bool" where
  "is_space c =
     (let n = (of_char c :: nat)
      in (9 \<le> n \<and> n \<le> 13) \<or> (28 \<le> n \<and> n \<le> 32) \<or> n = 133 \<or> n = 160)"

text \<open>The class \<^verbatim>\<open>[0-9]\<close>; on this range of code points it is \<^verbatim>\<open>\d\<close> as well.\<close>

definition is_digit :: "char \<Rightarrow> bool" where
  "is_digit c = (let n = (of_char c :: nat) in 48 \<le> n \<and> n \<le> 57)"

text \<open>\<^verbatim>\<open>\w\<close>: alphanumeric in the sense of \<^verbatim>\<open>str.isalnum\<close>, or the underscore. Besides
  the ASCII letters and digits this holds of the feminine and masculine ordinal
  indicators, the micro sign, the superscripts one to three, the three vulgar fractions
  and the accented letters (all of U+00C0 .. U+00FF except the two operators).\<close>

definition is_word :: "char \<Rightarrow> bool" where
  "is_word c =
     (let n = (of_char c :: nat)
      in (48 \<le> n \<and> n \<le> 57) \<or> (65 \<le> n \<and> n \<le> 90) \<or> n = 95 \<or> (97 \<le> n \<and> n \<le> 122)
         \<or> n = 170 \<or> n = 178 \<or> n = 179 \<or> n = 181 \<or> n = 185 \<or> n = 186
         \<or> (188 \<le> n \<and> n \<le> 190) \<or> (192 \<le> n \<and> n \<noteq> 215 \<and> n \<noteq> 247))"

text \<open>\<^verbatim>\<open>str.lower\<close> on one character: A..Z and the accented capitals move up by 32.\<close>

definition lower_char :: "char \<Rightarrow> char" where
  "lower_char c =
     (let n = (of_char c :: nat)
      in if (65 \<le> n \<and> n \<le> 90) \<or> (192 \<le> n \<and> n \<le> 222 \<and> n \<noteq> 215)
         then char_of (n + 32) else c)"

definition lower :: "string \<Rightarrow> string" where
  "lower s = map lower_char s"

text \<open>\<^verbatim>\<open>s.strip()\<close>\<close>

definition strip :: "string \<Rightarrow> string" where
  "strip s = rev (dropWhile is_space (rev (dropWhile is_space s)))"

text \<open>\<^verbatim>\<open>k in s\<close> for two strings\<close>

fun is_substr :: "string \<Rightarrow> string \<Rightarrow> bool" where
  "is_substr k [] = (k = [])"
| "is_substr k (c # cs) = (prefix k (c # cs) \<or> is_substr k cs)"

text \<open>\<^verbatim>\<open>s.split(sep)\<close> for a non-empty separator: the pieces between the leftmost
  non-overlapping occurrences of \<open>sep\<close>. The second argument is the piece being read.
  (An empty separator raises ValueError in Python; the code only splits on a constant.)\<close>

function split_from :: "string \<Rightarrow> string \<Rightarrow> string \<Rightarrow> string list" where
  "split_from sep cur [] = [cur]"
| "split_from sep cur (c # cs) =
     (if sep \<noteq> [] \<and> prefix sep (c # cs)
      then cur # split_from sep [] (drop (length sep) (c # cs))
      else split_from sep (cur @ [c]) cs)"
  by pat_completeness auto
termination
  by (relation "measure (\<lambda>(sep, cur, s). length s)") auto

definition split :: "string \<Rightarrow> string \<Rightarrow> string list" where
  "split s sep = split_from sep [] s"

text \<open>\<^verbatim>\<open>s.replace(old, new)\<close>: every leftmost non-overlapping occurrence of \<open>old\<close>
  becomes \<open>new\<close>; with an empty \<open>old\<close>, \<open>new\<close> goes before every character and at the
  end.\<close>

function replace_from :: "string \<Rightarrow> string \<Rightarrow> string \<Rightarrow> string" where
  "replace_from old new [] = []"
| "replace_from old new (c # cs) =
     (if prefix old (c # cs) \<and> old \<noteq> []
      then new @ replace_from old new (drop (length old) (c # cs))
      else c # replace_from old new cs)"
  by pat_completeness auto
termination
  by (relation "measure (\<lambda>(old, new, s). length s)") auto

definition replace :: "string \<Rightarrow> string \<Rightarrow> string \<Rightarrow> string" where
  "replace s old new =
     (if old = [] then new @ concat (map (\<lambda>c. c # new) s) else replace_from old new s)"

subsection \<open>JSON values, exceptions and the dynamic operations of Python\<close>

datatype json =
    JNull
  | JBool bool
  | JNum real
  | JStr string
  | JArr "json list"
  | JObj "(string \<times> json) list"

datatype error =
    TransportError
  | TypeError
  | KeyError
  | IndexError
  | AttributeError
  | HTTPException nat string

text \<open>Sequencing of computations that may raise.\<close>

definition ebind :: "error + 'a \<Rightarrow> ('a \<Rightarrow> error + 'b) \<Rightarrow> error + 'b" where
  "ebind m f = (case m of Inl e \<Rightarrow> Inl e | Inr v \<Rightarrow> f v)"

text \<open>Truth value of an object: \<^verbatim>\<open>not v\<close> is \<open>\<not> truthy v\<close>.\<close>

fun truthy :: "json \<Rightarrow> bool" where
  "truthy JNull = False"
| "truthy (JBool b) = b"
| "truthy (JNum x) = (x \<noteq> 0)"
| "truthy (JStr s) = (s \<noteq> [])"
| "truthy (JArr xs) = (xs \<noteq> [])"
| "truthy (JObj kvs) = (kvs \<noteq> [])"

text \<open>\<^verbatim>\<open>k in v\<close> for a string \<open>k\<close>: a key of a dict, an element of a list, a substring
  of a string; TypeError on anything else.\<close>

fun py_in :: "string \<Rightarrow> json \<Rightarrow> error + bool" where
  "py_in k (JObj kvs) = Inr (k \<in> set (map fst kvs))"
| "py_in k (JArr xs) = Inr (JStr k \<in> set xs)"
| "py_in k (JStr s) = Inr (is_substr k s)"
| "py_in k v = Inl TypeError"

text \<open>\<^verbatim>\<open>v[k]\<close> for a string \<open>k\<close>: KeyError on a dict without the key, TypeError on
  everything that is not a dict.\<close>

fun py_getitem :: "json \<Rightarrow> string \<Rightarrow> error + json" where
  "py_getitem (JObj kvs) k = (case map_of kvs k of Some v \<Rightarrow> Inr v | None \<Rightarrow> Inl KeyError)"
| "py_getitem v k = Inl TypeError"

text \<open>\<^verbatim>\<open>v[0]\<close>\<close>

fun py_first :: "json \<Rightarrow> error + json" where
  "py_first (JArr []) = Inl IndexError"
| "py_first (JArr (x # xs)) = Inr x"
| "py_first (JStr []) = Inl IndexError"
| "py_first (JStr (c # cs)) = Inr (JStr [c])"
| "py_first (JObj kvs) = Inl KeyError"
| "py_first v = Inl TypeError"

text \<open>\<^verbatim>\<open>list(v.values())[0]\<close>\<close>

fun py_first_value :: "json \<Rightarrow> error + json" where
  "py_first_value (JObj []) = Inl IndexError"
| "py_first_value (JObj (kv # kvs)) = Inr (snd kv)"
| "py_first_value v = Inl AttributeError"

text \<open>\<^verbatim>\<open>v.get(k, d)\<close>\<close>

fun py_get :: "json \<Rightarrow> string \<Rightarrow> json \<Rightarrow> error + json" where
  "py_get (JObj kvs) k d = Inr (case map_of kvs k of Some v \<Rightarrow> v | None \<Rightarrow> d)"
| "py_get v k d = Inl AttributeError"

text \<open>The items of \<^verbatim>\<open>for x in v\<close>: the elements of a list, the keys of a dict, the
  characters of a string; TypeError on anything else.\<close>

fun py_iter :: "json \<Rightarrow> error + json list" where
  "py_iter (JArr xs) = Inr xs"
| "py_iter (JObj kvs) = Inr (map (\<lambda>kv. JStr (fst kv)) kvs)"
| "py_iter (JStr s) = Inr (map (\<lambda>c. JStr [c]) s)"
| "py_iter v = Inl TypeError"

text \<open>\<^verbatim>\<open>v.replace(old, new)\<close>: only a string has the method.\<close>

fun py_replace :: "json \<Rightarrow> string \<Rightarrow> string \<Rightarrow> error + string" where
  "py_replace (JStr s) old new = Inr (replace s old new)"
| "py_replace v old new = Inl AttributeError"

text \<open>\<^verbatim>\<open>xs[:n]\<close>: a negative \<open>n\<close> counts from the end.\<close>

definition py_slice_to :: "'a list \<Rightarrow> int \<Rightarrow> 'a list" where
  "py_slice_to xs n = (if 0 \<le> n then take (nat n) xs else take (nat (int (length xs) + n)) xs)"

subsection \<open>TextSummarizer: \<^verbatim>\<open>extract_heritage_facts\<close>, \<^verbatim>\<open>extract_cultural_info\<close>\<close>

definition heritage_keywords :: "string list" where
  "heritage_keywords =
     [''built'', ''constructed'', ''established'', ''founded'', ''century'',
      ''ancient'', ''historical'', ''heritage'', ''monument'', ''temple'',
      ''fort'', ''palace'', ''architecture'', ''dynasty'', ''empire'']"

definition cultural_keywords :: "string list" where
  "cultural_keywords =
     [''culture'', ''tradition'', ''festival'', ''ritual'', ''worship'',
      ''pilgrimage'', ''sacred'', ''religious'', ''spiritual'', ''art'',
      ''craft'', ''music'', ''dance'', ''cuisine'', ''custom'']"

text \<open>The loop over the sentences, shared by the two functions: the first argument is
  the keyword list, the second the list built so far.\<close>

fun keyword_loop :: "string list \<Rightarrow> string list \<Rightarrow> string list \<Rightarrow> string list" where
  "keyword_loop kws facts [] = facts"
| "keyword_loop kws facts (sentence # sentences) =
     (let sentence' = strip sentence
      in if length sentence' > 20 \<and> list_ex (\<lambda>keyword. is_substr keyword (lower sentence')) kws
         then keyword_loop kws (facts @ [sentence' @ ''.'']) sentences
         else keyword_loop kws facts sentences)"

definition extract_heritage_facts :: "json \<Rightarrow> error + string list" where
  "extract_heritage_facts text =
     (if \<not> truthy text then Inr []
      else case text of
        JStr s \<Rightarrow> Inr (take 5 (keyword_loop heritage_keywords [] (split s ''. '')))
      | _ \<Rightarrow> Inl AttributeError)"

definition extract_cultural_info :: "json \<Rightarrow> error + string list" where
  "extract_cultural_info text =
     (if \<not> truthy text then Inr []
      else case text of
        JStr s \<Rightarrow> Inr (take 3 (keyword_loop cultural_keywords [] (split s ''. '')))
      | _ \<Rightarrow> Inl AttributeError)"

subsection \<open>TextSummarizer: \<^verbatim>\<open>extract_historical_dates\<close>\<close>

text \<open>\<^verbatim>\<open>\b\<close> between two neighbouring characters, \<open>None\<close> being an end of the text.\<close>

definition is_word_opt :: "char option \<Rightarrow> bool" where
  "is_word_opt c = (case c of None \<Rightarrow> False | Some x \<Rightarrow> is_word x)"

definition word_boundary :: "char option \<Rightarrow> char option \<Rightarrow> bool" where
  "word_boundary prev after = (is_word_opt prev \<noteq> is_word_opt after)"

definition char_at :: "string \<Rightarrow> nat \<Rightarrow> char option" where
  "char_at s i = (if i < length s then Some (s ! i) else None)"

text \<open>The group \<^verbatim>\<open>(1[0-9]{3}|20[0-2][0-9])\<close> at the start of \<open>s\<close>; a match has four
  characters.\<close>

definition year_group :: "string \<Rightarrow> bool" where
  "year_group s =
     (case s of
        a # b # c # d # rest \<Rightarrow>
          (a = CHR ''1'' \<and> is_digit b \<and> is_digit c \<and> is_digit d)
          \<or> (a = CHR ''2'' \<and> b = CHR ''0'' \<and> c \<in> set ''012'' \<and> is_digit d)
      | _ \<Rightarrow> False)"

text \<open>The whole pattern \<^verbatim>\<open>\b(1[0-9]{3}|20[0-2][0-9])\b\<close> at the start of \<open>s\<close>, the
  character in front of \<open>s\<close> being \<open>prev\<close>.\<close>

definition year_match :: "char option \<Rightarrow> string \<Rightarrow> bool" where
  "year_match prev s =
     (word_boundary prev (char_at s 0) \<and> year_group s
      \<and> word_boundary (char_at s 3) (char_at s 4))"

text \<open>\<^verbatim>\<open>re.findall(year_pattern, text)\<close>: the scan tries every position from the left
  and goes on behind a match.\<close>

function findall_years :: "char option \<Rightarrow> string \<Rightarrow> string list" where
  "findall_years prev [] = []"
| "findall_years prev (c # cs) =
     (if year_match prev (c # cs)
      then take 4 (c # cs) # findall_years (char_at (c # cs) 3) (drop 4 (c # cs))
      else findall_years (Some c) cs)"
  by pat_completeness auto
termination
  by (relation "measure (\<lambda>(prev, s). length s)") auto

text \<open>The rest of the century pattern behind the digits,
  \<^verbatim>\<open>(st|nd|rd|th)\s+century\b\<close> under \<^verbatim>\<open>re.IGNORECASE\<close>: the suffix as the text has it
  and the number of characters matched. The greedy \<^verbatim>\<open>\s+\<close> takes every space; giving
  one back cannot help, since a space is not the letter c.\<close>

definition century_tail :: "string \<Rightarrow> (string \<times> nat) option" where
  "century_tail s =
     (case s of
        a # b # r \<Rightarrow>
          if lower [a, b] \<in> set [''st'', ''nd'', ''rd'', ''th'']
          then (let r' = dropWhile is_space r;
                    n = length (takeWhile is_space r)
                in if 1 \<le> n \<and> lower (take 7 r') = ''century''
                      \<and> word_boundary (char_at r' 6) (char_at r' 7)
                   then Some ([a, b], 2 + n + 7)
                   else None)
          else None
      | _ \<Rightarrow> None)"

text \<open>The pattern behind its leading \<^verbatim>\<open>\b\<close>: \<^verbatim>\<open>\d{1,2}\<close> is greedy, so two digits are
  tried first and one digit after that. The result is the two groups and the length of
  the match.\<close>

definition century_groups :: "string \<Rightarrow> (string \<times> string \<times> nat) option" where
  "century_groups s =
     (let two = (case s of
                   a # b # r \<Rightarrow>
                     if is_digit a \<and> is_digit b
                     then map_option (\<lambda>(suf, n). ([a, b], suf, 2 + n)) (century_tail r)
                     else None
                 | _ \<Rightarrow> None)
      in case two of
           Some m \<Rightarrow> Some m
         | None \<Rightarrow>
             (case s of
                a # r \<Rightarrow>
                  if is_digit a
                  then map_option (\<lambda>(suf, n). ([a], suf, 1 + n)) (century_tail r)
                  else None
              | _ \<Rightarrow> None))"

definition century_match :: "char option \<Rightarrow> string \<Rightarrow> (string \<times> string \<times> nat) option" where
  "century_match prev s =
     (if word_boundary prev (char_at s 0) then century_groups s else None)"

lemma century_tail_length:
  "century_tail s = Some (suf, n) \<Longrightarrow> 0 < n"
  by (auto simp: century_tail_def Let_def split: list.splits if_splits)

lemma century_match_length:
  "century_match prev s = Some (digits, suf, n) \<Longrightarrow> 0 < n"
  by (auto simp: century_match_def century_groups_def Let_def
      split: list.splits if_splits option.splits)

text \<open>\<^verbatim>\<open>re.findall(century_pattern, text, re.IGNORECASE)\<close>: one pair of groups for
  every match, from the left.\<close>

function findall_centuries :: "char option \<Rightarrow> string \<Rightarrow> (string \<times> string) list" where
  "findall_centuries prev [] = []"
| "findall_centuries prev (c # cs) =
     (case century_match prev (c # cs) of
        Some (digits, suf, n) \<Rightarrow>
          (digits, suf) # findall_centuries (char_at (c # cs) (n - 1)) (drop n (c # cs))
      | None \<Rightarrow> findall_centuries (Some c) cs)"
  by pat_completeness auto
termination
  by (relation "measure (\<lambda>(prev, s). length s)")
     (auto dest: century_match_length)

record timeline_entry =
  period :: string
  type :: string

text \<open>\<^verbatim>\<open>for year in set(years)\<close> visits every distinct year once, in an order Python does
  not fix. The order is a parameter of the model: a function from the list of matches to
  the sequence the loop sees.\<close>

definition set_order :: "(string list \<Rightarrow> string list) \<Rightarrow> bool" where
  "set_order iter = (\<forall>xs. distinct (iter xs) \<and> set (iter xs) = set xs)"

definition extract_historical_dates ::
  "(string list \<Rightarrow> string list) \<Rightarrow> json \<Rightarrow> error + timeline_entry list" where
  "extract_historical_dates iter text =
     (if \<not> truthy text then Inr []
      else case text of
        JStr s \<Rightarrow>
          (let years = findall_years None s;
               centuries = findall_centuries None s;
               timeline = foldl (\<lambda>timeline year.
                            timeline @ [\<lparr>period = year, type = ''year''\<rparr>]) [] (iter years);
               timeline = foldl (\<lambda>timeline (century, suf).
                            timeline @ [\<lparr>period = century @ suf @ '' century'',
                                          type = ''century''\<rparr>]) timeline centuries
           in Inr (take 5 (sort_key period timeline)))
      | _ \<Rightarrow> Inl TypeError)"

subsection \<open>UpstreamClient: requests and the class \<^verbatim>\<open>WikimediaClient\<close>\<close>

text \<open>A GET request is its URL and its query parameters. A parameter that the code
  takes from a decoded response is kept as the JSON value it is.\<close>

datatype pval = PInt int | PStr string | PBool bool | PVal json

record request =
  url :: string
  params :: "(string \<times> pval) list"

text \<open>The upstream services. \<open>http n r\<close> is what the \<open>n\<close>-th GET of a method call gets
  for the request \<open>r\<close>, after \<^verbatim>\<open>response.json()\<close>: the decoded document, or the
  exception that the transport or the decoder raised.\<close>

type_synonym http = "nat \<Rightarrow> request \<Rightarrow> error + json"

definition COMMONS_API :: string where
  "COMMONS_API = ''https://commons.wikimedia.org/w/api.php''"

definition LANGUAGE_CODES :: "(string \<times> string) list" where
  "LANGUAGE_CODES =
     [(''en'', ''en''), (''hi'', ''hi''), (''ta'', ''ta''), (''te'', ''te''), (''bn'', ''bn'')]"

text \<open>\<^verbatim>\<open>LANGUAGE_CODES.get(lang, "en")\<close>\<close>

definition wiki_lang :: "string \<Rightarrow> string" where
  "wiki_lang lang = (case map_of LANGUAGE_CODES lang of Some code \<Rightarrow> code | None \<Rightarrow> ''en'')"

text \<open>The test \<^verbatim>\<open>k1 in data and k2 in data[k1]\<close> and the value \<^verbatim>\<open>data[k1][k2]\<close>.\<close>

definition has_path :: "json \<Rightarrow> string \<Rightarrow> string \<Rightarrow> error + bool" where
  "has_path data k1 k2 =
     ebind (py_in k1 data) (\<lambda>b.
       if b then ebind (py_getitem data k1) (\<lambda>inner. py_in k2 inner) else Inr False)"

definition get_path :: "json \<Rightarrow> string \<Rightarrow> string \<Rightarrow> error + json" where
  "get_path data k1 k2 = ebind (py_getitem data k1) (\<lambda>inner. py_getitem inner k2)"

definition search_wikipedia_request :: "string \<Rightarrow> string \<Rightarrow> int \<Rightarrow> request" where
  "search_wikipedia_request query lang limit =
     \<lparr>url = ''https://'' @ wiki_lang lang @ ''.wikipedia.org/w/api.php'',
      params = [(''action'', PStr ''query''), (''format'', PStr ''json''),
                (''list'', PStr ''search''), (''srsearch'', PStr (query @ '' India'')),
                (''srlimit'', PInt limit),
                (''srprop'', PStr ''snippet|titlesnippet|size'')]\<rparr>"

definition search_wikipedia :: "http \<Rightarrow> string \<Rightarrow> string \<Rightarrow> int \<Rightarrow> json" where
  "search_wikipedia http query lang limit =
     (case ebind (http 0 (search_wikipedia_request query lang limit)) (\<lambda>data.
             ebind (has_path data ''query'' ''search'') (\<lambda>found.
               if found then get_path data ''query'' ''search'' else Inr (JArr [])))
      of Inl e \<Rightarrow> JArr [] | Inr hits \<Rightarrow> hits)"

definition article_request :: "string \<Rightarrow> string \<Rightarrow> request" where
  "article_request title lang =
     \<lparr>url = ''https://'' @ wiki_lang lang @ ''.wikipedia.org/w/api.php'',
      params = [(''action'', PStr ''query''), (''format'', PStr ''json''),
                (''titles'', PStr title),
                (''prop'', PStr ''extracts|pageimages|coordinates|categories''),
                (''exintro'', PBool True), (''explaintext'', PBool True),
                (''exsectionformat'', PStr ''plain''), (''piprop'', PStr ''original''),
                (''coprop'', PStr ''lat|lon''), (''cllimit'', PInt 10)]\<rparr>"

text \<open>The part that \<^verbatim>\<open>get_article_content\<close> and \<^verbatim>\<open>get_wikivoyage_content\<close> share: the
  first page of the response, or an empty dict.\<close>

definition first_page :: "error + json \<Rightarrow> json" where
  "first_page response =
     (case ebind response (\<lambda>data.
             ebind (has_path data ''query'' ''pages'') (\<lambda>found.
               if found
               then ebind (get_path data ''query'' ''pages'') (\<lambda>pages. py_first_value pages)
               else Inr (JObj [])))
      of Inl e \<Rightarrow> JObj [] | Inr page_data \<Rightarrow> page_data)"

definition get_article_content :: "http \<Rightarrow> string \<Rightarrow> string \<Rightarrow> json" where
  "get_article_content http title lang = first_page (http 0 (article_request title lang))"

definition wikivoyage_request :: "string \<Rightarrow> string \<Rightarrow> request" where
  "wikivoyage_request location lang =
     \<lparr>url = ''https://'' @ wiki_lang lang @ ''.wikivoyage.org/w/api.php'',
      params = [(''action'', PStr ''query''), (''format'', PStr ''json''),
                (''titles'', PStr location), (''prop'', PStr ''extracts|pageimages''),
                (''exintro'', PBool True), (''explaintext'', PBool True),
                (''exsectionformat'', PStr ''plain''), (''piprop'', PStr ''original'')]\<rparr>"

definition get_wikivoyage_content :: "http \<Rightarrow> string \<Rightarrow> string \<Rightarrow> json" where
  "get_wikivoyage_content http location lang =
     first_page (http 0 (wikivoyage_request location lang))"

subsection \<open>UpstreamClient: \<^verbatim>\<open>get_commons_images\<close>\<close>

text \<open>One image of the result; \<open>image_title\<close> and \<open>image_url\<close> are the keys
  \<^verbatim>\<open>"title"\<close> and \<^verbatim>\<open>"url"\<close> of the source's dict.\<close>

record commons_image =
  image_title :: string
  image_url :: json
  full_url :: json
  width :: json
  height :: json
  description :: json

definition commons_search_request :: "string \<Rightarrow> int \<Rightarrow> request" where
  "commons_search_request search_term limit =
     \<lparr>url = COMMONS_API,
      params = [(''action'', PStr ''query''), (''format'', PStr ''json''),
                (''list'', PStr ''search''), (''srnamespace'', PInt 6),
                (''srsearch'', PStr (search_term @ '' India'')),
                (''srlimit'', PInt limit), (''srprop'', PStr ''snippet|titlesnippet'')]\<rparr>"

definition image_info_request :: "json \<Rightarrow> request" where
  "image_info_request item_title =
     \<lparr>url = COMMONS_API,
      params = [(''action'', PStr ''query''), (''format'', PStr ''json''),
                (''titles'', PVal item_title), (''prop'', PStr ''imageinfo''),
                (''iiprop'', PStr ''url|size|mime|extmetadata''),
                (''iiurlwidth'', PInt 400)]\<rparr>"

text \<open>The dict appended for a hit whose lookup gave \<open>img_info\<close>.\<close>

definition image_entry :: "json \<Rightarrow> json \<Rightarrow> error + commons_image" where
  "image_entry item img_info =
     ebind (py_getitem item ''title'') (\<lambda>item_title.
     ebind (py_replace item_title ''File:'' []) (\<lambda>title.
     ebind (py_get img_info ''url'' JNull) (\<lambda>url_or_none.
     ebind (py_get img_info ''thumburl'' url_or_none) (\<lambda>thumb_url.
     ebind (py_get img_info ''url'' JNull) (\<lambda>full.
     ebind (py_get img_info ''width'' JNull) (\<lambda>width_or_none.
     ebind (py_get img_info ''thumbwidth'' width_or_none) (\<lambda>thumb_width.
     ebind (py_get img_info ''height'' JNull) (\<lambda>height_or_none.
     ebind (py_get img_info ''thumbheight'' height_or_none) (\<lambda>thumb_height.
     ebind (py_get img_info ''extmetadata'' (JObj [])) (\<lambda>meta.
     ebind (py_get meta ''ImageDescription'' (JObj [])) (\<lambda>descr.
     ebind (py_get descr ''value'' (JStr [])) (\<lambda>descr_value.
       Inr \<lparr>image_title = title, image_url = thumb_url, full_url = full,
            width = thumb_width, height = thumb_height,
            description = descr_value\<rparr>))))))))))))"

text \<open>The body of the loop over the hits, for the hit \<open>item\<close> and the \<open>n\<close>-th GET of the
  call: an exception, or \<open>None\<close> when the hit adds nothing, or the dict it adds.\<close>

definition resolve_image :: "http \<Rightarrow> nat \<Rightarrow> json \<Rightarrow> error + commons_image option" where
  "resolve_image http n item =
     ebind (py_getitem item ''title'') (\<lambda>item_title.
     ebind (http n (image_info_request item_title)) (\<lambda>img_data.
     ebind (has_path img_data ''query'' ''pages'') (\<lambda>found.
       if found
       then ebind (get_path img_data ''query'' ''pages'') (\<lambda>pages.
            ebind (py_first_value pages) (\<lambda>page.
            ebind (py_in ''imageinfo'' page) (\<lambda>has_info.
              if has_info
              then ebind (py_getitem page ''imageinfo'') (\<lambda>infos.
                   ebind (py_first infos) (\<lambda>img_info.
                   ebind (image_entry item img_info) (\<lambda>entry. Inr (Some entry))))
              else Inr None)))
       else Inr None)))"

fun images_loop ::
  "http \<Rightarrow> nat \<Rightarrow> commons_image list \<Rightarrow> json list \<Rightarrow> error + commons_image list" where
  "images_loop http n images [] = Inr images"
| "images_loop http n images (item # items) =
     ebind (resolve_image http n item) (\<lambda>r.
       images_loop http (Suc n)
         (case r of None \<Rightarrow> images | Some entry \<Rightarrow> images @ [entry]) items)"

definition get_commons_images :: "http \<Rightarrow> string \<Rightarrow> int \<Rightarrow> commons_image list" where
  "get_commons_images http search_term limit =
     (case ebind (http 0 (commons_search_request search_term limit)) (\<lambda>data.
             ebind (has_path data ''query'' ''search'') (\<lambda>found.
               if found
               then ebind (get_path data ''query'' ''search'') (\<lambda>hits.
                    ebind (py_iter hits) (\<lambda>items.
                    ebind (images_loop http 1 [] items) (\<lambda>images.
                      Inr (py_slice_to images limit))))
               else Inr []))
      of Inl e \<Rightarrow> [] | Inr images \<Rightarrow> images)"

subsection \<open>Aggregator: the endpoint \<^verbatim>\<open>search_locations\<close>\<close>

text \<open>One location of the answer; \<open>loc_id\<close> and \<open>loc_title\<close> are the keys \<^verbatim>\<open>"id"\<close> and
  \<^verbatim>\<open>"title"\<close>. The answer itself has the keys \<^verbatim>\<open>"query"\<close>, \<^verbatim>\<open>"language"\<close>,
  \<^verbatim>\<open>"total"\<close> and \<^verbatim>\<open>"locations"\<close>.\<close>

record location =
  loc_id :: string
  loc_title :: json
  snippet :: json
  source :: string

record search_answer =
  search_query :: string
  search_language :: string
  search_total :: nat
  locations :: "location list"

fun locations_loop :: "location list \<Rightarrow> json list \<Rightarrow> error + location list" where
  "locations_loop locs [] = Inr locs"
| "locations_loop locs (result # results) =
     ebind (py_getitem result ''title'') (\<lambda>t.
     ebind (py_replace t '' '' ''_'') (\<lambda>slug.
     ebind (py_getitem result ''title'') (\<lambda>title.
     ebind (py_get result ''snippet'' (JStr [])) (\<lambda>snip.
       locations_loop
         (locs @ [\<lparr>loc_id = slug, loc_title = title, snippet = snip,
                         source = ''wikipedia''\<rparr>]) results))))"

definition search_locations :: "http \<Rightarrow> string \<Rightarrow> string \<Rightarrow> int \<Rightarrow> error + search_answer" where
  "search_locations http query lang limit =
     (case ebind (py_iter (search_wikipedia http query lang limit)) (\<lambda>wiki_results.
             ebind (locations_loop [] wiki_results) (\<lambda>locs.
               Inr \<lparr>search_query = query, search_language = lang,
                    search_total = length locs, locations = locs\<rparr>))
      of Inl e \<Rightarrow> Inl (HTTPException 500 ''Search service unavailable'')
       | Inr answer \<Rightarrow> Inr answer)"

subsection \<open>Aggregator: the endpoint \<^verbatim>\<open>get_heritage_content\<close>\<close>

text \<open>The composite record. \<open>wiki_extract\<close> is the key \<^verbatim>\<open>"extract"\<close> under
  \<^verbatim>\<open>"wikipedia"\<close>; \<open>travel_extract\<close> and \<open>travel_page_image\<close> are the keys
  \<^verbatim>\<open>"extract"\<close> and \<^verbatim>\<open>"page_image"\<close> under \<^verbatim>\<open>"travel_info"\<close>.\<close>

record wikipedia_part =
  wiki_extract :: json
  coordinates :: json
  categories :: "json list"
  page_image :: json

record travel_part =
  travel_extract :: json
  travel_page_image :: json

record summary_part =
  heritage_facts :: "string list"
  cultural_significance :: "string list"
  historical_timeline :: "timeline_entry list"

record heritage_data =
  location_id :: string
  title :: string
  language :: string
  wikipedia :: wikipedia_part
  travel_info :: travel_part
  images :: "commons_image list"
  summary :: summary_part

text \<open>\<^verbatim>\<open>[cat.get("title", "") for cat in cats]\<close>\<close>

fun category_titles :: "json list \<Rightarrow> error + json list" where
  "category_titles [] = Inr []"
| "category_titles (cat # cats) =
     ebind (py_get cat ''title'' (JStr [])) (\<lambda>t.
     ebind (category_titles cats) (\<lambda>ts. Inr (t # ts)))"

text \<open>What follows \<^verbatim>\<open>asyncio.gather(..., return_exceptions=True)\<close>: each of the three
  results is the value of its coroutine or the exception it raised.\<close>

definition merge_sources ::
  "(string list \<Rightarrow> string list) \<Rightarrow> string \<Rightarrow> string \<Rightarrow> string \<Rightarrow>
   error + json \<Rightarrow> error + commons_image list \<Rightarrow> error + json \<Rightarrow> error + heritage_data" where
  "merge_sources iter location_id' location_title lang gathered_wiki gathered_images
       gathered_voyage =
     (let wiki_content = (case gathered_wiki of Inl e \<Rightarrow> JObj [] | Inr v \<Rightarrow> v);
          images' = (case gathered_images of Inl e \<Rightarrow> [] | Inr v \<Rightarrow> v);
          wikivoyage_content = (case gathered_voyage of Inl e \<Rightarrow> JObj [] | Inr v \<Rightarrow> v)
      in ebind (py_get wiki_content ''extract'' (JStr [])) (\<lambda>article_extract.
         ebind (py_get wiki_content ''coordinates'' (JArr [])) (\<lambda>coords.
         ebind (py_get wiki_content ''categories'' (JArr [])) (\<lambda>cats.
         ebind (py_iter cats) (\<lambda>cat_list.
         ebind (category_titles cat_list) (\<lambda>cat_titles.
         ebind (py_get wiki_content ''pageimage'' (JStr [])) (\<lambda>wiki_image.
         ebind (py_get wikivoyage_content ''extract'' (JStr [])) (\<lambda>voyage_extract.
         ebind (py_get wikivoyage_content ''pageimage'' (JStr [])) (\<lambda>voyage_image.
         ebind (extract_heritage_facts article_extract) (\<lambda>facts.
         ebind (extract_cultural_info article_extract) (\<lambda>cultural.
         ebind (extract_historical_dates iter article_extract) (\<lambda>timeline.
           Inr \<lparr>location_id = location_id', title = location_title, language = lang,
                wikipedia = \<lparr>wiki_extract = article_extract, coordinates = coords,
                              categories = cat_titles, page_image = wiki_image\<rparr>,
                travel_info = \<lparr>travel_extract = voyage_extract,
                                travel_page_image = voyage_image\<rparr>,
                images = images',
                summary = \<lparr>heritage_facts = facts, cultural_significance = cultural,
                            historical_timeline = timeline\<rparr>\<rparr>))))))))))))"

text \<open>The handler. The three client methods catch every exception themselves, so each
  gathered result is a value. The media search is called without a limit, that is with
  its default of 10. An exception of the merge becomes the fault with status 500.\<close>

definition get_heritage_content ::
  "http \<Rightarrow> (string list \<Rightarrow> string list) \<Rightarrow> string \<Rightarrow> string \<Rightarrow> error + heritage_data" where
  "get_heritage_content http iter location_id' lang =
     (let location_title = replace location_id' ''_'' '' ''
      in case merge_sources iter location_id' location_title lang
                (Inr (get_article_content http location_title lang))
                (Inr (get_commons_images http location_title 10))
                (Inr (get_wikivoyage_content http location_title lang))
         of Inl e \<Rightarrow> Inl (HTTPException 500 ''Heritage content service unavailable'')
          | Inr heritage \<Rightarrow> Inr heritage)"

subsection \<open>Aggregator: the endpoint \<^verbatim>\<open>get_nearby_heritage\<close>\<close>

record 'a lat_lon =
  lat :: 'a
  lon :: 'a

text \<open>One place of the answer; \<open>place_id\<close>, \<open>place_title\<close> and \<open>place_coordinates\<close> are
  the keys \<^verbatim>\<open>"id"\<close>, \<^verbatim>\<open>"title"\<close> and \<^verbatim>\<open>"coordinates"\<close>.\<close>

record place =
  place_id :: string
  place_title :: json
  distance :: json
  place_coordinates :: "json lat_lon"

record nearby_answer =
  center :: "real lat_lon"
  radius_km :: int
  nearby_total :: nat
  places :: "place list"

text \<open>The request of the geosearch. The coordinates are numbers whose decimal text
  Python writes into \<^verbatim>\<open>gscoord\<close>; \<open>fmt\<close> is that formatting.\<close>

definition nearby_request :: "(real \<Rightarrow> string) \<Rightarrow> real \<Rightarrow> real \<Rightarrow> int \<Rightarrow> string \<Rightarrow> request" where
  "nearby_request fmt lat' lon' radius lang =
     \<lparr>url = ''https://'' @ wiki_lang lang @ ''.wikipedia.org/w/api.php'',
      params = [(''action'', PStr ''query''), (''format'', PStr ''json''),
                (''list'', PStr ''geosearch''),
                (''gscoord'', PStr (fmt lat' @ ''|'' @ fmt lon')),
                (''gsradius'', PInt (radius * 1000)),
                (''gslimit'', PInt 20), (''gsnamespace'', PInt 0)]\<rparr>"

fun places_loop :: "place list \<Rightarrow> json list \<Rightarrow> error + place list" where
  "places_loop nearby_places [] = Inr nearby_places"
| "places_loop nearby_places (p # ps) =
     ebind (py_getitem p ''title'') (\<lambda>t.
     ebind (py_replace t '' '' ''_'') (\<lambda>slug.
     ebind (py_getitem p ''title'') (\<lambda>title.
     ebind (py_get p ''dist'' (JNum 0)) (\<lambda>dist.
     ebind (py_get p ''lat'' (JNum 0)) (\<lambda>plat.
     ebind (py_get p ''lon'' (JNum 0)) (\<lambda>plon.
       places_loop
         (nearby_places @ [\<lparr>place_id = slug, place_title = title, distance = dist,
                             place_coordinates = \<lparr>lat = plat, lon = plon\<rparr>\<rparr>]) ps))))))"

definition get_nearby_heritage ::
  "http \<Rightarrow> (real \<Rightarrow> string) \<Rightarrow> real \<Rightarrow> real \<Rightarrow> int \<Rightarrow> string \<Rightarrow> error + nearby_answer" where
  "get_nearby_heritage http fmt lat' lon' radius lang =
     (case ebind (http 0 (nearby_request fmt lat' lon' radius lang)) (\<lambda>data.
             ebind (has_path data ''query'' ''geosearch'') (\<lambda>found.
             ebind (if found
                    then ebind (get_path data ''query'' ''geosearch'') (\<lambda>hits.
                         ebind (py_iter hits) (\<lambda>items. places_loop [] items))
                    else Inr []) (\<lambda>nearby_places.
               Inr \<lparr>center = \<lparr>lat = lat', lon = lon'\<rparr>, radius_km = radius,
                    nearby_total = length nearby_places, places = nearby_places\<rparr>)))
      of Inl e \<Rightarrow> Inl (HTTPException 500 ''Nearby search service unavailable'')
       | Inr answer \<Rightarrow> Inr answer)"

subsection \<open>Upstream scenarios\<close>

text \<open>Concrete upstreams and inputs for the examples below: every request fails; a media
  search with five hits whose second and fourth lookup raise, or answer without pages and
  without image information; a media search with a hit that has no title; a media search
  with twelve hits; an article search and a geosearch with known hits, a geosearch with a
  hit that has no title; a response with one page; an upstream that answers at one
  address only.\<close>

definition http_down :: http where
  "http_down n r = Inl TransportError"

definition image_hit :: "string \<Rightarrow> json" where
  "image_hit t = JObj [(''title'', JStr t), (''snippet'', JStr ''fort'')]"

definition info_fields :: "(string \<times> json) list" where
  "info_fields =
     [(''thumburl'', JStr ''https://upload/thumb.jpg''),
      (''url'', JStr ''https://upload/full.jpg''),
      (''thumbwidth'', JNum 400), (''width'', JNum 1600)]"

definition info_page :: json where
  "info_page =
     JObj [(''title'', JStr ''File:Fort.jpg''), (''imageinfo'', JArr [JObj info_fields])]"

definition image_info :: json where
  "image_info = JObj [(''query'', JObj [(''pages'', JObj [(''-1'', info_page)])])]"

definition five_hits :: json where
  "five_hits =
     JObj [(''query'', JObj [(''search'',
       JArr [image_hit ''File:A.jpg'', image_hit ''File:B.jpg'', image_hit ''File:C.jpg'',
             image_hit ''File:D.jpg'', image_hit ''File:E.jpg''])])]"

definition http_lookups_raise :: http where
  "http_lookups_raise n r =
     (if n = 0 then Inr five_hits
      else if n = 2 \<or> n = 4 then Inl TransportError
      else Inr image_info)"

definition bare_page :: json where
  "bare_page = JObj [(''title'', JStr ''File:D.jpg''), (''missing'', JStr [])]"

definition image_no_info :: json where
  "image_no_info = JObj [(''query'', JObj [(''pages'', JObj [(''-1'', bare_page)])])]"

definition http_lookups_blank :: http where
  "http_lookups_blank n r =
     (if n = 0 then Inr five_hits
      else if n = 2 then Inr (JObj [(''batchcomplete'', JStr [])])
      else if n = 4 then Inr image_no_info
      else Inr image_info)"

definition http_untitled_hit :: http where
  "http_untitled_hit n r =
     (if n = 0
      then Inr (JObj [(''query'', JObj [(''search'',
             JArr [image_hit ''File:A.jpg'', JObj [(''snippet'', JStr ''fort'')],
                   image_hit ''File:C.jpg''])])])
      else Inr image_info)"

definition twelve_hits :: json where
  "twelve_hits =
     JObj [(''query'', JObj [(''search'', JArr (replicate 12 (image_hit ''File:A.jpg'')))])]"

definition http_twelve :: http where
  "http_twelve n r = (if n = 0 then Inr twelve_hits else Inr image_info)"

definition http_articles :: http where
  "http_articles n r =
     Inr (JObj [(''query'', JObj [(''search'',
       JArr [JObj [(''title'', JStr ''Red Fort''), (''snippet'', JStr ''a fort in Delhi'')]])])])"




definition lal_qila :: json where
  "lal_qila =
     JObj [(''query'', JObj
       [(''search'', JArr [JObj [(''title'', JStr ''Lal Qila'')]]),
        (''pages'', JObj [(''7'', JObj [(''title'', JStr ''Lal Qila'')])]),
        (''geosearch'', JArr [JObj [(''title'', JStr ''Lal Qila'')]])])]"

definition http_only :: "string \<Rightarrow> http" where
  "http_only address n r = (if url r = address then Inr lal_qila else Inl TransportError)"

definition http_page :: http where
  "http_page n r =
     Inr (JObj [(''query'', JObj
       [(''pages'', JObj [(''4242'', JObj
          [(''title'', JStr ''Red Fort''),
           (''extract'', JStr ''The Red Fort is a historic fort in Delhi. It was built in 1648.''),
           (''categories'', JArr [JObj [(''title'', JStr ''Category:Forts in Delhi'')]])])]),
        (''search'', JArr [])])])"

definition coord_text :: "real \<Rightarrow> string" where
  "coord_text x = (if x = 0 then ''0.0'' else ''28.6'')"

section \<open>Properties\<close>

subsection \<open>Basic facts\<close>

lemma ebind_Inl [simp]: "ebind (Inl e) f = Inl e"
  by (simp add: ebind_def)

lemma ebind_Inr [simp]: "ebind (Inr v) f = f v"
  by (simp add: ebind_def)

lemma ebind_eq_Inr: "(ebind m f = Inr y) = (\<exists>v. m = Inr v \<and> f v = Inr y)"
  by (cases m) auto

lemma replace_from_char:
  "replace_from [a] [b] s = map (\<lambda>c. if c = a then b else c) s"
  by (induction s) auto

lemma replace_char: "replace s [a] [b] = map (\<lambda>c. if c = a then b else c) s"
  by (simp add: replace_def replace_from_char)

lemma py_replace_Inr:
  "py_replace v old new = Inr r \<Longrightarrow> \<exists>s. v = JStr s \<and> r = replace s old new"
  by (cases v) auto

lemma py_getitem_py_in: "py_getitem v k = Inr x \<Longrightarrow> py_in k v = Inr True"
  by (cases v) (auto split: option.splits dest: map_of_SomeD intro: rev_image_eqI)

lemma get_path_has_path:
  "get_path data a b = Inr v \<Longrightarrow> has_path data a b = Inr True"
  by (auto simp: get_path_def has_path_def ebind_eq_Inr dest: py_getitem_py_in)

lemma distinct_set_single: "distinct ys \<Longrightarrow> set ys = {x} \<Longrightarrow> ys = [x]"
proof (cases ys)
  case Nil
  assume "set ys = {x}"
  with Nil show ?thesis by simp
next
  case (Cons y zs)
  assume d: "distinct ys" and s: "set ys = {x}"
  from s Cons have "y = x" by auto
  moreover from d s Cons have "zs = []" by (cases zs) auto
  ultimately show ?thesis using Cons by simp
qed

lemma set_order_single: "set_order iter \<Longrightarrow> iter [x] = [x]"
  by (rule distinct_set_single) (simp_all add: set_order_def)

lemma set_order_remdups: "set_order remdups"
  by (simp add: set_order_def)

lemma foldl_snoc_map: "foldl (\<lambda>acc x. acc @ [f x]) acc xs = acc @ map f xs"
  by (induction xs arbitrary: acc) simp_all

lemma extract_historical_dates_JStr:
  "extract_historical_dates iter (JStr s) =
     (if s = [] then Inr []
      else Inr (take 5 (sort_key period
             (map (\<lambda>y. \<lparr>period = y, type = ''year''\<rparr>) (iter (findall_years None s))
              @ map (\<lambda>(c, suf). \<lparr>period = c @ suf @ '' century'', type = ''century''\<rparr>)
                  (findall_centuries None s)))))"
  by (simp add: extract_historical_dates_def Let_def foldl_snoc_map case_prod_unfold)

lemma extract_empty [simp]:
  "extract_heritage_facts (JStr []) = Inr []"
  "extract_cultural_info (JStr []) = Inr []"
  "extract_historical_dates iter (JStr []) = Inr []"
  by (simp_all add: extract_heritage_facts_def extract_cultural_info_def
      extract_historical_dates_def)

subsection \<open>The aggregator when every source fails\<close>

lemma first_page_Inl [simp]: "first_page (Inl e) = JObj []"
  by (simp add: first_page_def)

lemma get_commons_images_down:
  "http 0 (commons_search_request term limit) = Inl e \<Longrightarrow>
   get_commons_images http term limit = []"
  by (simp add: get_commons_images_def)

lemma merge_sources_empty:
  assumes "gw = Inl e1 \<or> gw = Inr (JObj [])"
    and "gi = Inl e2 \<or> gi = Inr []"
    and "gv = Inl e3 \<or> gv = Inr (JObj [])"
  shows "merge_sources iter lid t lang gw gi gv =
     Inr \<lparr>location_id = lid, title = t, language = lang,
          wikipedia = \<lparr>wiki_extract = JStr [], coordinates = JArr [], categories = [],
                        page_image = JStr []\<rparr>,
          travel_info = \<lparr>travel_extract = JStr [], travel_page_image = JStr []\<rparr>,
          images = [],
          summary = \<lparr>heritage_facts = [], cultural_significance = [],
                      historical_timeline = []\<rparr>\<rparr>"
  using assms by (auto simp: merge_sources_def)

lemma category_titles_objects:
  "\<forall>c \<in> set cats. \<exists>kvs. c = JObj kvs \<Longrightarrow> \<exists>ts. category_titles cats = Inr ts"
  by (induction cats) auto

lemma extract_total:
  "\<exists>facts. extract_heritage_facts (JStr s) = Inr facts"
  "\<exists>cultural. extract_cultural_info (JStr s) = Inr cultural"
  "\<exists>timeline. extract_historical_dates iter (JStr s) = Inr timeline"
  by (simp_all add: extract_heritage_facts_def extract_cultural_info_def
      extract_historical_dates_JStr)

lemma merge_sources_well_typed:
  assumes e: "map_of wkvs ''extract'' = None \<or> (\<exists>s. map_of wkvs ''extract'' = Some (JStr s))"
    and c: "map_of wkvs ''categories'' = None
        \<or> (\<exists>cats. map_of wkvs ''categories'' = Some (JArr cats)
              \<and> (\<forall>c \<in> set cats. \<exists>ckvs. c = JObj ckvs))"
  shows "\<exists>r. merge_sources iter lid t lang (Inr (JObj wkvs)) (Inr imgs) (Inr (JObj vkvs)) = Inr r"
proof -
  from e obtain s where s: "py_get (JObj wkvs) ''extract'' (JStr []) = Inr (JStr s)"
    by auto
  from c obtain cats where cats: "py_get (JObj wkvs) ''categories'' (JArr []) = Inr (JArr cats)"
    and objs: "\<forall>c \<in> set cats. \<exists>ckvs. c = JObj ckvs"
    by auto
  from category_titles_objects [OF objs] obtain ts where ts: "category_titles cats = Inr ts"
    by blast
  from extract_total(1) [of s] extract_total(2) [of s] extract_total(3) [of iter s]
  obtain facts cultural timeline where
    "extract_heritage_facts (JStr s) = Inr facts"
    "extract_cultural_info (JStr s) = Inr cultural"
    "extract_historical_dates iter (JStr s) = Inr timeline"
    by blast
  with s cats ts show ?thesis
    by (simp add: merge_sources_def)
qed

text \<open>
  C1. When the three upstream requests of \<open>get_heritage_content\<close> fail (the transport
  or the decoder raises, so that each client method gives its empty value), the
  operation does not raise, for any location id and language: it returns the record with
  every field present, an empty Wikipedia extract, empty coordinates and categories, no
  images, an empty travel extract and three empty summaries. The merge gives the same
  record when the three gathered results are exceptions. The operation also returns a
  record whenever the article page and the travel page are objects, the extract of the
  article, if present, is a string and its categories, if present, are a list of objects.
\<close>

theorem C1_all_sources_fail:
  "(http 0 (article_request (replace lid ''_'' '' '') lang) = Inl e1
    \<and> http 0 (commons_search_request (replace lid ''_'' '' '') 10) = Inl e2
    \<and> http 0 (wikivoyage_request (replace lid ''_'' '' '') lang) = Inl e3
    \<longrightarrow> get_heritage_content http iter lid lang =
         Inr \<lparr>location_id = lid, title = replace lid ''_'' '' '', language = lang,
              wikipedia = \<lparr>wiki_extract = JStr [], coordinates = JArr [], categories = [],
                            page_image = JStr []\<rparr>,
              travel_info = \<lparr>travel_extract = JStr [], travel_page_image = JStr []\<rparr>,
              images = [],
              summary = \<lparr>heritage_facts = [], cultural_significance = [],
                          historical_timeline = []\<rparr>\<rparr>)
   \<and> merge_sources iter lid (replace lid ''_'' '' '') lang (Inl e1) (Inl e2) (Inl e3) =
         Inr \<lparr>location_id = lid, title = replace lid ''_'' '' '', language = lang,
              wikipedia = \<lparr>wiki_extract = JStr [], coordinates = JArr [], categories = [],
                            page_image = JStr []\<rparr>,
              travel_info = \<lparr>travel_extract = JStr [], travel_page_image = JStr []\<rparr>,
              images = [],
              summary = \<lparr>heritage_facts = [], cultural_significance = [],
                          historical_timeline = []\<rparr>\<rparr>
   \<and> (get_article_content http (replace lid ''_'' '' '') lang = JObj wkvs
       \<and> (map_of wkvs ''extract'' = None \<or> (\<exists>s. map_of wkvs ''extract'' = Some (JStr s)))
       \<and> (map_of wkvs ''categories'' = None
           \<or> (\<exists>cats. map_of wkvs ''categories'' = Some (JArr cats)
                 \<and> (\<forall>c \<in> set cats. \<exists>ckvs. c = JObj ckvs)))
       \<and> get_wikivoyage_content http (replace lid ''_'' '' '') lang = JObj vkvs
       \<longrightarrow> (\<exists>r. get_heritage_content http iter lid lang = Inr r))"
proof (intro conjI impI)
  assume a: "get_article_content http (replace lid ''_'' '' '') lang = JObj wkvs
       \<and> (map_of wkvs ''extract'' = None \<or> (\<exists>s. map_of wkvs ''extract'' = Some (JStr s)))
       \<and> (map_of wkvs ''categories'' = None
           \<or> (\<exists>cats. map_of wkvs ''categories'' = Some (JArr cats)
                 \<and> (\<forall>c \<in> set cats. \<exists>ckvs. c = JObj ckvs)))
       \<and> get_wikivoyage_content http (replace lid ''_'' '' '') lang = JObj vkvs"
  then obtain r where
    "merge_sources iter lid (replace lid ''_'' '' '') lang (Inr (JObj wkvs))
       (Inr (get_commons_images http (replace lid ''_'' '' '') 10)) (Inr (JObj vkvs)) = Inr r"
    using merge_sources_well_typed [of wkvs iter lid "replace lid ''_'' '' ''" lang
        "get_commons_images http (replace lid ''_'' '' '') 10" vkvs]
    by blast
  with a show "\<exists>r. get_heritage_content http iter lid lang = Inr r"
    by (simp add: get_heritage_content_def Let_def)
qed (simp_all add: get_heritage_content_def Let_def get_article_content_def
      get_wikivoyage_content_def get_commons_images_down merge_sources_empty)

lemma page_scenario:
  "get_article_content http_page (replace ''Red_Fort'' ''_'' '' '') ''en'' =
     JObj [(''title'', JStr ''Red Fort''),
           (''extract'', JStr ''The Red Fort is a historic fort in Delhi. It was built in 1648.''),
           (''categories'', JArr [JObj [(''title'', JStr ''Category:Forts in Delhi'')]])]"
  "get_wikivoyage_content http_page (replace ''Red_Fort'' ''_'' '' '') ''en'' =
     JObj [(''title'', JStr ''Red Fort''),
           (''extract'', JStr ''The Red Fort is a historic fort in Delhi. It was built in 1648.''),
           (''categories'', JArr [JObj [(''title'', JStr ''Category:Forts in Delhi'')]])]"
  by code_simp+

theorem C1_all_sources_fail_witness:
  "http_down 0 (article_request (replace ''Red_Fort'' ''_'' '' '') ''fr'') = Inl TransportError
   \<and> http_down 0 (commons_search_request (replace ''Red_Fort'' ''_'' '' '') 10)
       = Inl TransportError
   \<and> http_down 0 (wikivoyage_request (replace ''Red_Fort'' ''_'' '' '') ''fr'')
       = Inl TransportError
   \<and> get_heritage_content http_down remdups ''Red_Fort'' ''fr'' =
         Inr \<lparr>location_id = ''Red_Fort'', title = ''Red Fort'', language = ''fr'',
              wikipedia = \<lparr>wiki_extract = JStr [], coordinates = JArr [], categories = [],
                            page_image = JStr []\<rparr>,
              travel_info = \<lparr>travel_extract = JStr [], travel_page_image = JStr []\<rparr>,
              images = [],
              summary = \<lparr>heritage_facts = [], cultural_significance = [],
                          historical_timeline = []\<rparr>\<rparr>
   \<and> (\<exists>r. get_heritage_content http_page remdups ''Red_Fort'' ''en'' = Inr r)"
proof (intro conjI)
  let ?page = "[(''title'', JStr ''Red Fort''),
           (''extract'', JStr ''The Red Fort is a historic fort in Delhi. It was built in 1648.''),
           (''categories'', JArr [JObj [(''title'', JStr ''Category:Forts in Delhi'')]])]"
  have "map_of ?page ''extract''
          = Some (JStr ''The Red Fort is a historic fort in Delhi. It was built in 1648.'')"
    and "map_of ?page ''categories''
          = Some (JArr [JObj [(''title'', JStr ''Category:Forts in Delhi'')]])"
    and "\<forall>c \<in> set [JObj [(''title'', JStr ''Category:Forts in Delhi'')]]. \<exists>ckvs. c = JObj ckvs"
    by simp_all
  with C1_all_sources_fail [where http = http_page and lid = "''Red_Fort''" and lang = "''en''"
      and wkvs = ?page and vkvs = ?page and iter = remdups] page_scenario
  show "\<exists>r. get_heritage_content http_page remdups ''Red_Fort'' ''en'' = Inr r"
    by blast
next
  show "get_heritage_content http_down remdups ''Red_Fort'' ''fr'' =
         Inr \<lparr>location_id = ''Red_Fort'', title = ''Red Fort'', language = ''fr'',
              wikipedia = \<lparr>wiki_extract = JStr [], coordinates = JArr [], categories = [],
                            page_image = JStr []\<rparr>,
              travel_info = \<lparr>travel_extract = JStr [], travel_page_image = JStr []\<rparr>,
              images = [],
              summary = \<lparr>heritage_facts = [], cultural_significance = [],
                          historical_timeline = []\<rparr>\<rparr>"
    using C1_all_sources_fail [of http_down "''Red_Fort''" "''fr''" TransportError
      TransportError TransportError remdups]
    by (simp add: http_down_def replace_char)
qed (simp_all add: http_down_def)

subsection \<open>The media search\<close>

lemma length_py_slice_to: "0 \<le> n \<Longrightarrow> length (py_slice_to xs n) \<le> nat n"
  by (simp add: py_slice_to_def)

lemma length_get_commons_images:
  "0 \<le> limit \<Longrightarrow> length (get_commons_images http term limit) \<le> nat limit"
  by (auto simp: get_commons_images_def ebind_def length_py_slice_to split: sum.splits)

lemma images_loop_resolved:
  "length rs = length items \<Longrightarrow>
   (\<forall>i<length items. resolve_image http (n + i) (items ! i) = Inr (rs ! i)) \<Longrightarrow>
   images_loop http n acc items = Inr (acc @ map the (filter (\<lambda>r. r \<noteq> None) rs))"
proof (induction items arbitrary: n acc rs)
  case Nil
  then show ?case by simp
next
  case (Cons item items)
  from Cons.prems(1) obtain r rs' where rs: "rs = r # rs'" and len: "length rs' = length items"
    by (cases rs) auto
  have first: "resolve_image http n item = Inr r"
    using Cons.prems(2) rs by force
  have rest: "\<forall>i<length items. resolve_image http (Suc n + i) (items ! i) = Inr (rs' ! i)"
    using Cons.prems(2) rs by force
  show ?case
    by (cases r) (simp_all add: first rs Cons.IH[OF len rest])
qed

lemma images_loop_raises:
  "i < length items \<Longrightarrow> resolve_image http (n + i) (items ! i) = Inl e \<Longrightarrow>
   \<exists>e'. images_loop http n acc items = Inl e'"
proof (induction items arbitrary: n acc i)
  case Nil
  then show ?case by simp
next
  case (Cons item items)
  show ?case
  proof (cases "resolve_image http n item")
    case (Inl e0)
    then show ?thesis by simp
  next
    case (Inr r)
    with Cons.prems have "i \<noteq> 0" by (cases i) auto
    then obtain j where j: "i = Suc j" by (cases i) auto
    with Cons.prems have "j < length items" "resolve_image http (Suc n + j) (items ! j) = Inl e"
      by auto
    from Cons.IH[OF this] show ?thesis using Inr by simp
  qed
qed

text \<open>
  C3 as stated fails: five hits, limit 3, the lookups of the second and of the fourth hit
  raise and the other three resolve; the operation returns no asset at all.
\<close>

theorem C3_lookup_raises_counterexample:
  "resolve_image http_lookups_raise 1 (image_hit ''File:A.jpg'') =
     Inr (Some \<lparr>image_title = ''A.jpg'', image_url = JStr ''https://upload/thumb.jpg'',
                full_url = JStr ''https://upload/full.jpg'', width = JNum 400,
                height = JNull, description = JStr []\<rparr>)
   \<and> resolve_image http_lookups_raise 2 (image_hit ''File:B.jpg'') = Inl TransportError
   \<and> resolve_image http_lookups_raise 3 (image_hit ''File:C.jpg'') =
     Inr (Some \<lparr>image_title = ''C.jpg'', image_url = JStr ''https://upload/thumb.jpg'',
                full_url = JStr ''https://upload/full.jpg'', width = JNum 400,
                height = JNull, description = JStr []\<rparr>)
   \<and> resolve_image http_lookups_raise 4 (image_hit ''File:D.jpg'') = Inl TransportError
   \<and> resolve_image http_lookups_raise 5 (image_hit ''File:E.jpg'') =
     Inr (Some \<lparr>image_title = ''E.jpg'', image_url = JStr ''https://upload/thumb.jpg'',
                full_url = JStr ''https://upload/full.jpg'', width = JNum 400,
                height = JNull, description = JStr []\<rparr>)
   \<and> get_commons_images http_lookups_raise ''Red Fort'' 3 = []"
  by code_simp

lemma resolve_image_untitled:
  "py_getitem item ''title'' = Inl e \<Longrightarrow> resolve_image http n item = Inl e"
  by (simp add: resolve_image_def)

lemma resolve_image_fault:
  "py_getitem item ''title'' = Inr t \<Longrightarrow> http n (image_info_request t) = Inl e \<Longrightarrow>
   resolve_image http n item = Inl e"
  by (simp add: resolve_image_def)

lemma resolve_image_no_pages:
  "py_getitem item ''title'' = Inr t \<Longrightarrow> http n (image_info_request t) = Inr d \<Longrightarrow>
   has_path d ''query'' ''pages'' = Inr False \<Longrightarrow>
   resolve_image http n item = Inr None"
  by (simp add: resolve_image_def)

lemma resolve_image_no_info:
  "py_getitem item ''title'' = Inr t \<Longrightarrow> http n (image_info_request t) = Inr d \<Longrightarrow>
   get_path d ''query'' ''pages'' = Inr pages \<Longrightarrow> py_first_value pages = Inr page \<Longrightarrow>
   py_in ''imageinfo'' page = Inr False \<Longrightarrow>
   resolve_image http n item = Inr None"
  by (simp add: resolve_image_def get_path_has_path)

lemma resolve_image_info:
  assumes "py_getitem item ''title'' = Inr (JStr s)"
    and "http n (image_info_request (JStr s)) = Inr d"
    and "get_path d ''query'' ''pages'' = Inr pages"
    and "py_first_value pages = Inr page"
    and "py_getitem page ''imageinfo'' = Inr infos"
    and "py_first infos = Inr (JObj info)"
    and "py_get (JObj info) ''extmetadata'' (JObj []) = Inr meta"
    and "py_get meta ''ImageDescription'' (JObj []) = Inr descr"
    and "py_get descr ''value'' (JStr []) = Inr v"
  shows "resolve_image http n item =
     Inr (Some \<lparr>image_title = replace s ''File:'' [],
                image_url = (case map_of info ''thumburl'' of Some u \<Rightarrow> u
                             | None \<Rightarrow> (case map_of info ''url'' of Some u \<Rightarrow> u | None \<Rightarrow> JNull)),
                full_url = (case map_of info ''url'' of Some u \<Rightarrow> u | None \<Rightarrow> JNull),
                width = (case map_of info ''thumbwidth'' of Some u \<Rightarrow> u
                         | None \<Rightarrow> (case map_of info ''width'' of Some u \<Rightarrow> u | None \<Rightarrow> JNull)),
                height = (case map_of info ''thumbheight'' of Some u \<Rightarrow> u
                          | None \<Rightarrow> (case map_of info ''height'' of Some u \<Rightarrow> u | None \<Rightarrow> JNull)),
                description = v\<rparr>)"
proof -
  from assms(7) have meta: "py_get (JObj info) ''extmetadata'' (JObj []) = Inr meta" .
  have "image_entry item (JObj info) =
     Inr \<lparr>image_title = replace s ''File:'' [],
                image_url = (case map_of info ''thumburl'' of Some u \<Rightarrow> u
                             | None \<Rightarrow> (case map_of info ''url'' of Some u \<Rightarrow> u | None \<Rightarrow> JNull)),
                full_url = (case map_of info ''url'' of Some u \<Rightarrow> u | None \<Rightarrow> JNull),
                width = (case map_of info ''thumbwidth'' of Some u \<Rightarrow> u
                         | None \<Rightarrow> (case map_of info ''width'' of Some u \<Rightarrow> u | None \<Rightarrow> JNull)),
                height = (case map_of info ''thumbheight'' of Some u \<Rightarrow> u
                          | None \<Rightarrow> (case map_of info ''height'' of Some u \<Rightarrow> u | None \<Rightarrow> JNull)),
                description = v\<rparr>"
    using assms(1,7,8,9) by (simp add: image_entry_def)
  with assms(1-6) show ?thesis
    by (simp add: resolve_image_def get_path_has_path py_getitem_py_in)
qed

text \<open>
  C3, amended. For a search response whose hits are the list \<open>items\<close>, let every hit have
  a title and every lookup be answered. A hit whose answer has no \<^verbatim>\<open>query.pages\<close>, or whose
  page has no \<^verbatim>\<open>imageinfo\<close>, is dropped alone and adds no entry; a hit whose page has
  image information adds the asset built from it (title without the prefix, thumbnail or
  full URL, full URL, width, height, description). The operation returns these assets in
  the order of the hits, cut to the limit. When some hit has no title or some lookup
  raises, the batch is aborted and the operation returns the empty sequence.
\<close>

theorem C3_images_amended:
  assumes "http 0 (commons_search_request term limit) = Inr data"
    and "get_path data ''query'' ''search'' = Inr (JArr items)"
  shows "(length outs = length items
          \<and> (\<forall>i<length items. \<exists>t d.
                py_getitem (items ! i) ''title'' = Inr t
                \<and> http (Suc i) (image_info_request t) = Inr d
                \<and> ((has_path d ''query'' ''pages'' = Inr False \<and> outs ! i = None)
                   \<or> (\<exists>pages page.
                         get_path d ''query'' ''pages'' = Inr pages
                         \<and> py_first_value pages = Inr page
                         \<and> py_in ''imageinfo'' page = Inr False \<and> outs ! i = None)
                   \<or> (\<exists>pages page infos info meta descr v s.
                         get_path d ''query'' ''pages'' = Inr pages
                         \<and> py_first_value pages = Inr page
                         \<and> py_getitem page ''imageinfo'' = Inr infos
                         \<and> py_first infos = Inr (JObj info)
                         \<and> py_get (JObj info) ''extmetadata'' (JObj []) = Inr meta
                         \<and> py_get meta ''ImageDescription'' (JObj []) = Inr descr
                         \<and> py_get descr ''value'' (JStr []) = Inr v
                         \<and> t = JStr s
                         \<and> outs ! i =
                             Some \<lparr>image_title = replace s ''File:'' [],
                                   image_url =
                                     (case map_of info ''thumburl'' of Some u \<Rightarrow> u
                                      | None \<Rightarrow> (case map_of info ''url'' of
                                                   Some u \<Rightarrow> u | None \<Rightarrow> JNull)),
                                   full_url =
                                     (case map_of info ''url'' of Some u \<Rightarrow> u | None \<Rightarrow> JNull),
                                   width =
                                     (case map_of info ''thumbwidth'' of Some u \<Rightarrow> u
                                      | None \<Rightarrow> (case map_of info ''width'' of
                                                   Some u \<Rightarrow> u | None \<Rightarrow> JNull)),
                                   height =
                                     (case map_of info ''thumbheight'' of Some u \<Rightarrow> u
                                      | None \<Rightarrow> (case map_of info ''height'' of
                                                   Some u \<Rightarrow> u | None \<Rightarrow> JNull)),
                                   description = v\<rparr>)))
          \<longrightarrow> get_commons_images http term limit
               = py_slice_to (map the (filter (\<lambda>r. r \<noteq> None) outs)) limit)
       \<and> ((\<exists>i<length items.
              (\<exists>e. py_getitem (items ! i) ''title'' = Inl e)
              \<or> (\<exists>t e. py_getitem (items ! i) ''title'' = Inr t
                        \<and> http (Suc i) (image_info_request t) = Inl e))
          \<longrightarrow> get_commons_images http term limit = [])"
proof (intro conjI impI)
  assume h: "length outs = length items
          \<and> (\<forall>i<length items. \<exists>t d.
                py_getitem (items ! i) ''title'' = Inr t
                \<and> http (Suc i) (image_info_request t) = Inr d
                \<and> ((has_path d ''query'' ''pages'' = Inr False \<and> outs ! i = None)
                   \<or> (\<exists>pages page.
                         get_path d ''query'' ''pages'' = Inr pages
                         \<and> py_first_value pages = Inr page
                         \<and> py_in ''imageinfo'' page = Inr False \<and> outs ! i = None)
                   \<or> (\<exists>pages page infos info meta descr v s.
                         get_path d ''query'' ''pages'' = Inr pages
                         \<and> py_first_value pages = Inr page
                         \<and> py_getitem page ''imageinfo'' = Inr infos
                         \<and> py_first infos = Inr (JObj info)
                         \<and> py_get (JObj info) ''extmetadata'' (JObj []) = Inr meta
                         \<and> py_get meta ''ImageDescription'' (JObj []) = Inr descr
                         \<and> py_get descr ''value'' (JStr []) = Inr v
                         \<and> t = JStr s
                         \<and> outs ! i =
                             Some \<lparr>image_title = replace s ''File:'' [],
                                   image_url =
                                     (case map_of info ''thumburl'' of Some u \<Rightarrow> u
                                      | None \<Rightarrow> (case map_of info ''url'' of
                                                   Some u \<Rightarrow> u | None \<Rightarrow> JNull)),
                                   full_url =
                                     (case map_of info ''url'' of Some u \<Rightarrow> u | None \<Rightarrow> JNull),
                                   width =
                                     (case map_of info ''thumbwidth'' of Some u \<Rightarrow> u
                                      | None \<Rightarrow> (case map_of info ''width'' of
                                                   Some u \<Rightarrow> u | None \<Rightarrow> JNull)),
                                   height =
                                     (case map_of info ''thumbheight'' of Some u \<Rightarrow> u
                                      | None \<Rightarrow> (case map_of info ''height'' of
                                                   Some u \<Rightarrow> u | None \<Rightarrow> JNull)),
                                   description = v\<rparr>)))"
  have "resolve_image http (1 + i) (items ! i) = Inr (outs ! i)" if i: "i < length items" for i
  proof -
    from h i obtain t d where t: "py_getitem (items ! i) ''title'' = Inr t"
      and d: "http (Suc i) (image_info_request t) = Inr d"
      and cases: "(has_path d ''query'' ''pages'' = Inr False \<and> outs ! i = None)
                   \<or> (\<exists>pages page.
                         get_path d ''query'' ''pages'' = Inr pages
                         \<and> py_first_value pages = Inr page
                         \<and> py_in ''imageinfo'' page = Inr False \<and> outs ! i = None)
                   \<or> (\<exists>pages page infos info meta descr v s.
                         get_path d ''query'' ''pages'' = Inr pages
                         \<and> py_first_value pages = Inr page
                         \<and> py_getitem page ''imageinfo'' = Inr infos
                         \<and> py_first infos = Inr (JObj info)
                         \<and> py_get (JObj info) ''extmetadata'' (JObj []) = Inr meta
                         \<and> py_get meta ''ImageDescription'' (JObj []) = Inr descr
                         \<and> py_get descr ''value'' (JStr []) = Inr v
                         \<and> t = JStr s
                         \<and> outs ! i =
                             Some \<lparr>image_title = replace s ''File:'' [],
                                   image_url =
                                     (case map_of info ''thumburl'' of Some u \<Rightarrow> u
                                      | None \<Rightarrow> (case map_of info ''url'' of
                                                   Some u \<Rightarrow> u | None \<Rightarrow> JNull)),
                                   full_url =
                                     (case map_of info ''url'' of Some u \<Rightarrow> u | None \<Rightarrow> JNull),
                                   width =
                                     (case map_of info ''thumbwidth'' of Some u \<Rightarrow> u
                                      | None \<Rightarrow> (case map_of info ''width'' of
                                                   Some u \<Rightarrow> u | None \<Rightarrow> JNull)),
                                   height =
                                     (case map_of info ''thumbheight'' of Some u \<Rightarrow> u
                                      | None \<Rightarrow> (case map_of info ''height'' of
                                                   Some u \<Rightarrow> u | None \<Rightarrow> JNull)),
                                   description = v\<rparr>)"
      by blast
    from cases show ?thesis
    proof (elim disjE exE conjE)
      assume "has_path d ''query'' ''pages'' = Inr False" "outs ! i = None"
      with resolve_image_no_pages [OF t] d show ?thesis by simp
    next
      fix pages page
      assume "get_path d ''query'' ''pages'' = Inr pages" "py_first_value pages = Inr page"
        "py_in ''imageinfo'' page = Inr False" "outs ! i = None"
      with resolve_image_no_info [OF t] d show ?thesis by simp
    next
      fix pages page infos info meta descr v s
      assume a: "get_path d ''query'' ''pages'' = Inr pages" "py_first_value pages = Inr page"
        "py_getitem page ''imageinfo'' = Inr infos" "py_first infos = Inr (JObj info)"
        "py_get (JObj info) ''extmetadata'' (JObj []) = Inr meta"
        "py_get meta ''ImageDescription'' (JObj []) = Inr descr"
        "py_get descr ''value'' (JStr []) = Inr v"
        and s: "t = JStr s"
        and o: "outs ! i =
                             Some \<lparr>image_title = replace s ''File:'' [],
                                   image_url =
                                     (case map_of info ''thumburl'' of Some u \<Rightarrow> u
                                      | None \<Rightarrow> (case map_of info ''url'' of
                                                   Some u \<Rightarrow> u | None \<Rightarrow> JNull)),
                                   full_url =
                                     (case map_of info ''url'' of Some u \<Rightarrow> u | None \<Rightarrow> JNull),
                                   width =
                                     (case map_of info ''thumbwidth'' of Some u \<Rightarrow> u
                                      | None \<Rightarrow> (case map_of info ''width'' of
                                                   Some u \<Rightarrow> u | None \<Rightarrow> JNull)),
                                   height =
                                     (case map_of info ''thumbheight'' of Some u \<Rightarrow> u
                                      | None \<Rightarrow> (case map_of info ''height'' of
                                                   Some u \<Rightarrow> u | None \<Rightarrow> JNull)),
                                   description = v\<rparr>"
      from t d s have "py_getitem (items ! i) ''title'' = Inr (JStr s)"
        "http (1 + i) (image_info_request (JStr s)) = Inr d" by simp_all
      from resolve_image_info [where http = http and n = "1 + i", OF this a] o
      show ?thesis by simp
    qed
  qed
  with h have "images_loop http 1 [] items = Inr ([] @ map the (filter (\<lambda>r. r \<noteq> None) outs))"
    by (intro images_loop_resolved) auto
  then show "get_commons_images http term limit
               = py_slice_to (map the (filter (\<lambda>r. r \<noteq> None) outs)) limit"
    using assms by (simp add: get_commons_images_def get_path_has_path)
next
  assume "\<exists>i<length items.
              (\<exists>e. py_getitem (items ! i) ''title'' = Inl e)
              \<or> (\<exists>t e. py_getitem (items ! i) ''title'' = Inr t
                        \<and> http (Suc i) (image_info_request t) = Inl e)"
  then obtain i e where "i < length items" "resolve_image http (1 + i) (items ! i) = Inl e"
    by (auto dest: resolve_image_untitled resolve_image_fault)
  from images_loop_raises[OF this] obtain e' where "images_loop http 1 [] items = Inl e'"
    by blast
  then show "get_commons_images http term limit = []"
    using assms by (simp add: get_commons_images_def get_path_has_path)
qed

lemma blank_scenario_search:
  "http_lookups_blank 0 (commons_search_request ''Red Fort'' 3) = Inr five_hits"
  by (simp add: http_lookups_blank_def)

lemma five_hits_items:
  "get_path five_hits ''query'' ''search'' =
     Inr (JArr [image_hit ''File:A.jpg'', image_hit ''File:B.jpg'', image_hit ''File:C.jpg'',
                image_hit ''File:D.jpg'', image_hit ''File:E.jpg''])"
  by code_simp

lemma image_hit_title: "py_getitem (image_hit t) ''title'' = Inr (JStr t)"
  by (simp add: image_hit_def)

lemma blank_scenario_answers:
  "http_lookups_blank (Suc 0) r = Inr image_info"
  "http_lookups_blank (Suc (Suc 0)) r = Inr (JObj [(''batchcomplete'', JStr [])])"
  "http_lookups_blank (Suc (Suc (Suc 0))) r = Inr image_info"
  "http_lookups_blank (Suc (Suc (Suc (Suc 0)))) r = Inr image_no_info"
  "http_lookups_blank (Suc (Suc (Suc (Suc (Suc 0))))) r = Inr image_info"
  by (simp_all add: http_lookups_blank_def numeral_eq_Suc)

lemma image_info_parts:
  "get_path image_info ''query'' ''pages'' = Inr (JObj [(''-1'', info_page)])"
  "py_first_value (JObj [(''-1'', info_page)]) = Inr info_page"
  "py_getitem info_page ''imageinfo'' = Inr (JArr [JObj info_fields])"
  "py_first (JArr [JObj info_fields]) = Inr (JObj info_fields)"
  "py_get (JObj info_fields) ''extmetadata'' (JObj []) = Inr (JObj [])"
  "py_get (JObj []) ''ImageDescription'' (JObj []) = Inr (JObj [])"
  "py_get (JObj []) ''value'' (JStr []) = Inr (JStr [])"
  by (simp_all add: image_info_def info_page_def info_fields_def get_path_def)

lemma image_no_info_parts:
  "get_path image_no_info ''query'' ''pages'' = Inr (JObj [(''-1'', bare_page)])"
  "py_first_value (JObj [(''-1'', bare_page)]) = Inr bare_page"
  "py_in ''imageinfo'' bare_page = Inr False"
  by (simp_all add: image_no_info_def bare_page_def get_path_def)

lemma batchcomplete_no_pages:
  "has_path (JObj [(''batchcomplete'', JStr [])]) ''query'' ''pages'' = Inr False"
  by (simp add: has_path_def)

lemma file_names:
  "replace ''File:A.jpg'' ''File:'' [] = ''A.jpg''"
  "replace ''File:C.jpg'' ''File:'' [] = ''C.jpg''"
  "replace ''File:E.jpg'' ''File:'' [] = ''E.jpg''"
  by code_simp+

lemma info_fields_values:
  "map_of info_fields ''thumburl'' = Some (JStr ''https://upload/thumb.jpg'')"
  "map_of info_fields ''url'' = Some (JStr ''https://upload/full.jpg'')"
  "map_of info_fields ''thumbwidth'' = Some (JNum 400)"
  "map_of info_fields ''thumbheight'' = None"
  "map_of info_fields ''height'' = None"
  "map_of info_fields ''extmetadata'' = None"
  by (simp_all add: info_fields_def)

lemma untitled_scenario:
  "http_untitled_hit 0 (commons_search_request ''Red Fort'' 3) =
     Inr (JObj [(''query'', JObj [(''search'',
             JArr [image_hit ''File:A.jpg'', JObj [(''snippet'', JStr ''fort'')],
                   image_hit ''File:C.jpg''])])])"
  "get_path (JObj [(''query'', JObj [(''search'',
             JArr [image_hit ''File:A.jpg'', JObj [(''snippet'', JStr ''fort'')],
                   image_hit ''File:C.jpg''])])]) ''query'' ''search'' =
     Inr (JArr [image_hit ''File:A.jpg'', JObj [(''snippet'', JStr ''fort'')],
                   image_hit ''File:C.jpg''])"
  "py_getitem (JObj [(''snippet'', JStr ''fort'')]) ''title'' = Inl KeyError"
  by (simp_all add: http_untitled_hit_def get_path_def)

lemma raise_scenario_search:
  "http_lookups_raise 0 (commons_search_request ''Red Fort'' 3) = Inr five_hits"
  by (simp add: http_lookups_raise_def)

lemma raise_scenario_answer:
  "http_lookups_raise (Suc (Suc 0)) r = Inl TransportError"
  by (simp add: http_lookups_raise_def numeral_eq_Suc)

theorem C3_images_amended_witness:
  "get_commons_images http_lookups_blank ''Red Fort'' 3 =
     [\<lparr>image_title = ''A.jpg'', image_url = JStr ''https://upload/thumb.jpg'',
       full_url = JStr ''https://upload/full.jpg'', width = JNum 400,
       height = JNull, description = JStr []\<rparr>,
      \<lparr>image_title = ''C.jpg'', image_url = JStr ''https://upload/thumb.jpg'',
       full_url = JStr ''https://upload/full.jpg'', width = JNum 400,
       height = JNull, description = JStr []\<rparr>,
      \<lparr>image_title = ''E.jpg'', image_url = JStr ''https://upload/thumb.jpg'',
       full_url = JStr ''https://upload/full.jpg'', width = JNum 400,
       height = JNull, description = JStr []\<rparr>]
   \<and> get_commons_images http_lookups_raise ''Red Fort'' 3 = []
   \<and> get_commons_images http_untitled_hit ''Red Fort'' 3 = []"
proof (intro conjI)
  let ?img = "\<lambda>t. Some \<lparr>image_title = t, image_url = JStr ''https://upload/thumb.jpg'',
       full_url = JStr ''https://upload/full.jpg'', width = JNum 400,
       height = JNull, description = JStr []\<rparr>"
  let ?items = "[image_hit ''File:A.jpg'', image_hit ''File:B.jpg'', image_hit ''File:C.jpg'',
                image_hit ''File:D.jpg'', image_hit ''File:E.jpg'']"
  let ?outs = "[?img ''A.jpg'', None, ?img ''C.jpg'', None, ?img ''E.jpg'']"
  note resolved = image_hit_title blank_scenario_answers image_info_parts file_names
    info_fields_values
  have "length ?outs = length ?items
          \<and> (\<forall>i<length ?items. \<exists>t d.
                py_getitem (?items ! i) ''title'' = Inr t
                \<and> http_lookups_blank (Suc i) (image_info_request t) = Inr d
                \<and> ((has_path d ''query'' ''pages'' = Inr False \<and> ?outs ! i = None)
                   \<or> (\<exists>pages page.
                         get_path d ''query'' ''pages'' = Inr pages
                         \<and> py_first_value pages = Inr page
                         \<and> py_in ''imageinfo'' page = Inr False \<and> ?outs ! i = None)
                   \<or> (\<exists>pages page infos info meta descr v s.
                         get_path d ''query'' ''pages'' = Inr pages
                         \<and> py_first_value pages = Inr page
                         \<and> py_getitem page ''imageinfo'' = Inr infos
                         \<and> py_first infos = Inr (JObj info)
                         \<and> py_get (JObj info) ''extmetadata'' (JObj []) = Inr meta
                         \<and> py_get meta ''ImageDescription'' (JObj []) = Inr descr
                         \<and> py_get descr ''value'' (JStr []) = Inr v
                         \<and> t = JStr s
                         \<and> ?outs ! i =
                             Some \<lparr>image_title = replace s ''File:'' [],
                                   image_url =
                                     (case map_of info ''thumburl'' of Some u \<Rightarrow> u
                                      | None \<Rightarrow> (case map_of info ''url'' of
                                                   Some u \<Rightarrow> u | None \<Rightarrow> JNull)),
                                   full_url =
                                     (case map_of info ''url'' of Some u \<Rightarrow> u | None \<Rightarrow> JNull),
                                   width =
                                     (case map_of info ''thumbwidth'' of Some u \<Rightarrow> u
                                      | None \<Rightarrow> (case map_of info ''width'' of
                                                   Some u \<Rightarrow> u | None \<Rightarrow> JNull)),
                                   height =
                                     (case map_of info ''thumbheight'' of Some u \<Rightarrow> u
                                      | None \<Rightarrow> (case map_of info ''height'' of
                                                   Some u \<Rightarrow> u | None \<Rightarrow> JNull)),
                                   description = v\<rparr>)))"
    unfolding All_less_Suc2 length_Cons list.size nth_Cons_0 nth_Cons_Suc
  proof (intro conjI allI impI)
    show "\<exists>t d. py_getitem (image_hit ''File:B.jpg'') ''title'' = Inr t
                \<and> http_lookups_blank (Suc (Suc 0)) (image_info_request t) = Inr d
                \<and> ((has_path d ''query'' ''pages'' = Inr False \<and> (None :: commons_image option) = None) \<or> Q1 t d \<or> Q2 t d)" for Q1 Q2
      using image_hit_title blank_scenario_answers(2) batchcomplete_no_pages by blast
    show "\<exists>t d. py_getitem (image_hit ''File:D.jpg'') ''title'' = Inr t
                \<and> http_lookups_blank (Suc (Suc (Suc (Suc 0)))) (image_info_request t) = Inr d
                \<and> (Q0 t d \<or> (\<exists>pages page.
                         get_path d ''query'' ''pages'' = Inr pages
                         \<and> py_first_value pages = Inr page
                         \<and> py_in ''imageinfo'' page = Inr False \<and> (None :: commons_image option) = None) \<or> Q2 t d)" for Q0 Q2
      using image_hit_title blank_scenario_answers(4) image_no_info_parts by blast
  qed (simp_all add: resolved)
  with C3_images_amended [where http = http_lookups_blank and outs = "?outs",
      OF blank_scenario_search five_hits_items]
  show "get_commons_images http_lookups_blank ''Red Fort'' 3 =
     [\<lparr>image_title = ''A.jpg'', image_url = JStr ''https://upload/thumb.jpg'',
       full_url = JStr ''https://upload/full.jpg'', width = JNum 400,
       height = JNull, description = JStr []\<rparr>,
      \<lparr>image_title = ''C.jpg'', image_url = JStr ''https://upload/thumb.jpg'',
       full_url = JStr ''https://upload/full.jpg'', width = JNum 400,
       height = JNull, description = JStr []\<rparr>,
      \<lparr>image_title = ''E.jpg'', image_url = JStr ''https://upload/thumb.jpg'',
       full_url = JStr ''https://upload/full.jpg'', width = JNum 400,
       height = JNull, description = JStr []\<rparr>]"
    by (simp add: py_slice_to_def)
next
  let ?items = "[image_hit ''File:A.jpg'', image_hit ''File:B.jpg'', image_hit ''File:C.jpg'',
                image_hit ''File:D.jpg'', image_hit ''File:E.jpg'']"
  have "\<exists>i<length ?items.
              (\<exists>e. py_getitem (?items ! i) ''title'' = Inl e)
              \<or> (\<exists>t e. py_getitem (?items ! i) ''title'' = Inr t
                        \<and> http_lookups_raise (Suc i) (image_info_request t) = Inl e)"
    by (intro exI[of _ 1]) (simp add: image_hit_title raise_scenario_answer)
  with C3_images_amended [where http = http_lookups_raise,
      OF raise_scenario_search five_hits_items]
  show "get_commons_images http_lookups_raise ''Red Fort'' 3 = []"
    by blast
next
  let ?items = "[image_hit ''File:A.jpg'', JObj [(''snippet'', JStr ''fort'')],
                   image_hit ''File:C.jpg'']"
  have "\<exists>i<length ?items.
              (\<exists>e. py_getitem (?items ! i) ''title'' = Inl e)
              \<or> (\<exists>t e. py_getitem (?items ! i) ''title'' = Inr t
                        \<and> http_untitled_hit (Suc i) (image_info_request t) = Inl e)"
    by (intro exI[of _ 1]) (simp add: untitled_scenario(3))
  with C3_images_amended [where http = http_untitled_hit, OF untitled_scenario(1,2)]
  show "get_commons_images http_untitled_hit ''Red Fort'' 3 = []"
    by blast
qed

text \<open>
  C9. The aggregator calls the media search with its default limit of 10, so the record
  it returns carries the result of that call and at most 10 media assets, for every
  location id, language and upstream.
\<close>

theorem C9_at_most_ten_images:
  "length (get_commons_images http term 10) \<le> 10
   \<and> (get_heritage_content http iter lid lang = Inr r
      \<longrightarrow> images r = get_commons_images http (replace lid ''_'' '' '') 10
          \<and> length (images r) \<le> 10)"
proof -
  have len: "length (get_commons_images http t 10) \<le> 10" for t
    using length_get_commons_images [of 10 http t] by simp
  have "images r = get_commons_images http (replace lid ''_'' '' '') 10"
    if "get_heritage_content http iter lid lang = Inr r"
    using that
    by (auto simp: get_heritage_content_def merge_sources_def Let_def ebind_eq_Inr
        split: sum.splits)
  with len show ?thesis by auto
qed

lemma twelve_scenario:
  "map_sum id (\<lambda>r. length (images r))
     (get_heritage_content http_twelve remdups ''Red_Fort'' ''en'') = Inr 10"
  by code_simp

theorem C9_at_most_ten_images_witness:
  "\<exists>r. get_heritage_content http_twelve remdups ''Red_Fort'' ''en'' = Inr r
       \<and> images r = get_commons_images http_twelve (replace ''Red_Fort'' ''_'' '' '') 10
       \<and> length (images r) = 10 \<and> length (images r) \<le> 10"
proof -
  from twelve_scenario obtain r where
    r: "get_heritage_content http_twelve remdups ''Red_Fort'' ''en'' = Inr r"
    and n: "length (images r) = 10"
    by (cases "get_heritage_content http_twelve remdups ''Red_Fort'' ''en''") auto
  from C9_at_most_ten_images [of http_twelve "''Red Fort''" remdups "''Red_Fort''" "''en''" r] r n
  show ?thesis by auto
qed

subsection \<open>Slugs and languages\<close>

lemma round_trip_keeps:
  "CHR ''_'' \<notin> set t \<Longrightarrow> replace (replace t '' '' ''_'') ''_'' '' '' = t"
  by (induction t) (auto simp: replace_char)

lemma round_trip_no_underscore:
  "CHR ''_'' \<notin> set (replace (replace t '' '' ''_'') ''_'' '' '')"
  by (auto simp: replace_char)

lemma round_trip_loses:
  "CHR ''_'' \<in> set t \<Longrightarrow> replace (replace t '' '' ''_'') ''_'' '' '' \<noteq> t"
  using round_trip_no_underscore[of t] by auto

lemma locations_loop_titles:
  "locations_loop locs rs = Inr out \<Longrightarrow>
   \<forall>l \<in> set locs. \<exists>t. loc_title l = JStr t \<and> loc_id l = replace t '' '' ''_'' \<Longrightarrow>
   \<forall>l \<in> set out. \<exists>t. loc_title l = JStr t \<and> loc_id l = replace t '' '' ''_''"
proof (induction rs arbitrary: locs)
  case Nil
  then show ?case by simp
next
  case (Cons r rs)
  from Cons.prems(1) obtain t slug snip where
    t: "py_getitem r ''title'' = Inr t" and
    slug: "py_replace t '' '' ''_'' = Inr slug" and
    rest: "locations_loop (locs @ [\<lparr>loc_id = slug, loc_title = t, snippet = snip,
                         source = ''wikipedia''\<rparr>]) rs = Inr out"
    by (auto simp: ebind_eq_Inr)
  from py_replace_Inr[OF slug] obtain s where "t = JStr s" "slug = replace s '' '' ''_''"
    by blast
  with Cons.prems(2) have
    "\<forall>l \<in> set (locs @ [\<lparr>loc_id = slug, loc_title = t, snippet = snip,
                         source = ''wikipedia''\<rparr>]).
       \<exists>t. loc_title l = JStr t \<and> loc_id l = replace t '' '' ''_''"
    by auto
  from Cons.IH[OF rest this] show ?case .
qed

lemma search_locations_titles:
  assumes "search_locations http query lang limit = Inr answer"
    and "l \<in> set (locations answer)"
  shows "\<exists>t. loc_title l = JStr t \<and> loc_id l = replace t '' '' ''_''"
proof -
  from assms(1) obtain rs locs where
    "locations_loop [] rs = Inr locs" "locations answer = locs"
    by (auto simp: search_locations_def ebind_eq_Inr split: sum.splits)
  with locations_loop_titles[of "[]" rs locs] assms(2) show ?thesis by auto
qed

lemma get_heritage_content_title:
  "get_heritage_content http iter lid lang = Inr r \<Longrightarrow> title r = replace lid ''_'' '' ''"
  by (auto simp: get_heritage_content_def merge_sources_def Let_def ebind_eq_Inr
      split: sum.splits)

text \<open>
  C7. The search derives the id of a location from its title by replacing every space
  with an underscore, and \<open>get_heritage_content\<close> derives the title from the id by
  replacing every underscore with a space. Going there and back recovers a title that has
  no underscore, and never recovers a title that has one.
\<close>

theorem C7_slug_round_trip:
  "(CHR ''_'' \<notin> set t \<longrightarrow> replace (replace t '' '' ''_'') ''_'' '' '' = t)
   \<and> (CHR ''_'' \<in> set t \<longrightarrow> replace (replace t '' '' ''_'') ''_'' '' '' \<noteq> t)
   \<and> (search_locations http query lang limit = Inr answer \<and> l \<in> set (locations answer)
       \<longrightarrow> (\<exists>t'. loc_title l = JStr t' \<and> loc_id l = replace t' '' '' ''_''))
   \<and> (get_heritage_content http' iter lid lang' = Inr r
       \<longrightarrow> title r = replace lid ''_'' '' '')"
  using round_trip_keeps [of t] round_trip_loses [of t]
    search_locations_titles [of http query lang limit answer l]
    get_heritage_content_title [of http' iter lid lang' r]
  by blast

lemma articles_scenario:
  "search_locations http_articles ''fort'' ''en'' 10 =
     Inr \<lparr>search_query = ''fort'', search_language = ''en'', search_total = 1,
          locations = [\<lparr>loc_id = ''Red_Fort'', loc_title = JStr ''Red Fort'',
                        snippet = JStr ''a fort in Delhi'', source = ''wikipedia''\<rparr>]\<rparr>"
  by code_simp

lemma red_fort_scenario:
  "map_sum id title (get_heritage_content http_down remdups ''Red_Fort'' ''en'')
     = Inr ''Red Fort''"
  by code_simp

theorem C7_slug_round_trip_witness:
  "CHR ''_'' \<notin> set ''Red Fort''
   \<and> replace (replace ''Red Fort'' '' '' ''_'') ''_'' '' '' = ''Red Fort''
   \<and> CHR ''_'' \<in> set ''Fatehpur_Sikri''
   \<and> replace (replace ''Fatehpur_Sikri'' '' '' ''_'') ''_'' '' '' \<noteq> ''Fatehpur_Sikri''
   \<and> (\<exists>answer l r.
        search_locations http_articles ''fort'' ''en'' 10 = Inr answer
        \<and> l \<in> set (locations answer)
        \<and> loc_title l = JStr ''Red Fort'' \<and> loc_id l = ''Red_Fort''
        \<and> get_heritage_content http_down remdups (loc_id l) ''en'' = Inr r
        \<and> title r = ''Red Fort'')"
proof -
  let ?l = "\<lparr>loc_id = ''Red_Fort'', loc_title = JStr ''Red Fort'',
             snippet = JStr ''a fort in Delhi'', source = ''wikipedia''\<rparr>"
  let ?answer = "\<lparr>search_query = ''fort'', search_language = ''en'', search_total = 1,
                  locations = [?l]\<rparr>"
  from red_fort_scenario obtain r where
    r: "get_heritage_content http_down remdups ''Red_Fort'' ''en'' = Inr r"
    by (cases "get_heritage_content http_down remdups ''Red_Fort'' ''en''") auto
  have a: "CHR ''_'' \<notin> set ''Red Fort''" and b: "CHR ''_'' \<in> set ''Fatehpur_Sikri''"
    by simp_all
  have c: "replace ''Red_Fort'' ''_'' '' '' = ''Red Fort''"
    by (simp add: replace_char)
  have l: "?l \<in> set (locations ?answer)"
    by simp
  from C7_slug_round_trip [of "''Red Fort''" http_articles "''fort''" "''en''" 10 ?answer ?l
      http_down remdups "''Red_Fort''" "''en''" r] a articles_scenario l r c
  have "replace (replace ''Red Fort'' '' '' ''_'') ''_'' '' '' = ''Red Fort''"
    and "title r = ''Red Fort''"
    by simp_all
  moreover
  from C7_slug_round_trip [of "''Fatehpur_Sikri''"] b
  have "replace (replace ''Fatehpur_Sikri'' '' '' ''_'') ''_'' '' '' \<noteq> ''Fatehpur_Sikri''"
    by blast
  ultimately show ?thesis
    using a b articles_scenario r
    by (intro conjI exI[of _ ?answer] exI[of _ ?l] exI[of _ r]) simp_all
qed

lemma wiki_lang_eq:
  "wiki_lang lang =
     (if lang \<in> set [''en'', ''hi'', ''ta'', ''te'', ''bn''] then lang else ''en'')"
  by (simp add: wiki_lang_def LANGUAGE_CODES_def)

lemma wiki_lang_idem: "wiki_lang (wiki_lang lang) = wiki_lang lang"
  by (simp add: wiki_lang_eq)

lemma request_urls:
  "url (search_wikipedia_request query lang limit)
     = ''https://'' @ wiki_lang lang @ ''.wikipedia.org/w/api.php''"
  "url (article_request t lang) = ''https://'' @ wiki_lang lang @ ''.wikipedia.org/w/api.php''"
  "url (wikivoyage_request t lang) = ''https://'' @ wiki_lang lang @ ''.wikivoyage.org/w/api.php''"
  "url (nearby_request fmt la lo radius lang)
     = ''https://'' @ wiki_lang lang @ ''.wikipedia.org/w/api.php''"
  by (simp_all add: search_wikipedia_request_def article_request_def wikivoyage_request_def
      nearby_request_def)

lemma search_wikipedia_answer:
  assumes "\<forall>r. url r = ''https://'' @ wiki_lang lang @ ''.wikipedia.org/w/api.php''
             \<longrightarrow> http 0 r = answer"
  shows "answer = Inr resp \<and> get_path resp ''query'' ''search'' = Inr hits
           \<longrightarrow> search_wikipedia http query lang limit = hits"
    and "answer = Inl e \<longrightarrow> search_wikipedia http query lang limit = JArr []"
proof -
  from assms have "http 0 (search_wikipedia_request query lang limit) = answer"
    by (simp add: request_urls)
  then show "answer = Inr resp \<and> get_path resp ''query'' ''search'' = Inr hits
           \<longrightarrow> search_wikipedia http query lang limit = hits"
    and "answer = Inl e \<longrightarrow> search_wikipedia http query lang limit = JArr []"
    by (auto simp: search_wikipedia_def get_path_has_path)
qed

lemma first_page_answer:
  "get_path resp ''query'' ''pages'' = Inr pages \<Longrightarrow> py_first_value pages = Inr page \<Longrightarrow>
   first_page (Inr resp) = page"
  by (simp add: first_page_def get_path_has_path)

lemma get_article_content_answer:
  assumes "\<forall>r. url r = ''https://'' @ wiki_lang lang @ ''.wikipedia.org/w/api.php''
             \<longrightarrow> http 0 r = answer"
  shows "answer = Inr resp \<and> get_path resp ''query'' ''pages'' = Inr pages
           \<and> py_first_value pages = Inr page
           \<longrightarrow> get_article_content http t lang = page"
    and "answer = Inl e \<longrightarrow> get_article_content http t lang = JObj []"
proof -
  from assms have "http 0 (article_request t lang) = answer"
    by (simp add: request_urls)
  then show "answer = Inr resp \<and> get_path resp ''query'' ''pages'' = Inr pages
           \<and> py_first_value pages = Inr page
           \<longrightarrow> get_article_content http t lang = page"
    and "answer = Inl e \<longrightarrow> get_article_content http t lang = JObj []"
    by (auto simp: get_article_content_def first_page_answer)
qed

lemma get_wikivoyage_content_answer:
  assumes "\<forall>r. url r = ''https://'' @ wiki_lang lang @ ''.wikivoyage.org/w/api.php''
             \<longrightarrow> http 0 r = answer"
  shows "answer = Inr resp \<and> get_path resp ''query'' ''pages'' = Inr pages
           \<and> py_first_value pages = Inr page
           \<longrightarrow> get_wikivoyage_content http t lang = page"
    and "answer = Inl e \<longrightarrow> get_wikivoyage_content http t lang = JObj []"
proof -
  from assms have "http 0 (wikivoyage_request t lang) = answer"
    by (simp add: request_urls)
  then show "answer = Inr resp \<and> get_path resp ''query'' ''pages'' = Inr pages
           \<and> py_first_value pages = Inr page
           \<longrightarrow> get_wikivoyage_content http t lang = page"
    and "answer = Inl e \<longrightarrow> get_wikivoyage_content http t lang = JObj []"
    by (auto simp: get_wikivoyage_content_def first_page_answer)
qed

lemma get_nearby_heritage_answer:
  assumes "\<forall>r. url r = ''https://'' @ wiki_lang lang @ ''.wikipedia.org/w/api.php''
             \<longrightarrow> http 0 r = answer"
  shows "answer = Inr resp
           \<and> get_path resp ''query'' ''geosearch'' = Inr (JArr [JObj [(''title'', JStr name)]])
           \<longrightarrow> get_nearby_heritage http fmt la lo radius lang
               = Inr \<lparr>center = \<lparr>lat = la, lon = lo\<rparr>, radius_km = radius, nearby_total = 1,
                      places = [\<lparr>place_id = replace name '' '' ''_'', place_title = JStr name,
                                 distance = JNum 0,
                                 place_coordinates = \<lparr>lat = JNum 0, lon = JNum 0\<rparr>\<rparr>]\<rparr>"
    and "answer = Inl e \<longrightarrow> get_nearby_heritage http fmt la lo radius lang
               = Inl (HTTPException 500 ''Nearby search service unavailable'')"
proof -
  from assms have "http 0 (nearby_request fmt la lo radius lang) = answer"
    by (simp add: request_urls)
  then show "answer = Inr resp
           \<and> get_path resp ''query'' ''geosearch'' = Inr (JArr [JObj [(''title'', JStr name)]])
           \<longrightarrow> get_nearby_heritage http fmt la lo radius lang
               = Inr \<lparr>center = \<lparr>lat = la, lon = lo\<rparr>, radius_km = radius, nearby_total = 1,
                      places = [\<lparr>place_id = replace name '' '' ''_'', place_title = JStr name,
                                 distance = JNum 0,
                                 place_coordinates = \<lparr>lat = JNum 0, lon = JNum 0\<rparr>\<rparr>]\<rparr>"
    and "answer = Inl e \<longrightarrow> get_nearby_heritage http fmt la lo radius lang
               = Inl (HTTPException 500 ''Nearby search service unavailable'')"
    by (auto simp: get_nearby_heritage_def get_path_has_path)
qed

text \<open>
  C8. Article search, article content, travel content and geosearch address the host of
  the given language when it is one of en, hi, ta, te, bn, and the host of en otherwise.
  The URL of the request has that host and each operation gives what it gives for the
  language so replaced. Each operation sends its request to that host: whatever the other
  addresses answer, the result is made from the answer of that host alone, the hits of
  the search, the first page of the article and of the travel guide, the place of the
  geosearch, and the fallback value or fault of the operation when that host fails.
\<close>

theorem C8_language_fallback:
  "(let host = (if lang \<in> set [''en'', ''hi'', ''ta'', ''te'', ''bn''] then lang else ''en'');
        wikipedia_host = ''https://'' @ host @ ''.wikipedia.org/w/api.php'';
        wikivoyage_host = ''https://'' @ host @ ''.wikivoyage.org/w/api.php''
    in url (search_wikipedia_request query lang limit) = wikipedia_host
     \<and> url (article_request t lang) = wikipedia_host
     \<and> url (wikivoyage_request t lang) = wikivoyage_host
     \<and> url (nearby_request fmt la lo radius lang) = wikipedia_host
     \<and> search_wikipedia http query lang limit = search_wikipedia http query host limit
     \<and> get_article_content http t lang = get_article_content http t host
     \<and> get_wikivoyage_content http t lang = get_wikivoyage_content http t host
     \<and> get_nearby_heritage http fmt la lo radius lang
         = get_nearby_heritage http fmt la lo radius host
     \<and> ((\<forall>r. url r = wikipedia_host \<longrightarrow> http 0 r = Inr resp)
         \<and> get_path resp ''query'' ''search'' = Inr hits
         \<longrightarrow> search_wikipedia http query lang limit = hits)
     \<and> ((\<forall>r. url r = wikipedia_host \<longrightarrow> http 0 r = Inr resp)
         \<and> get_path resp ''query'' ''pages'' = Inr pages \<and> py_first_value pages = Inr page
         \<longrightarrow> get_article_content http t lang = page)
     \<and> ((\<forall>r. url r = wikivoyage_host \<longrightarrow> http 0 r = Inr resp)
         \<and> get_path resp ''query'' ''pages'' = Inr pages \<and> py_first_value pages = Inr page
         \<longrightarrow> get_wikivoyage_content http t lang = page)
     \<and> ((\<forall>r. url r = wikipedia_host \<longrightarrow> http 0 r = Inr resp)
         \<and> get_path resp ''query'' ''geosearch'' = Inr (JArr [JObj [(''title'', JStr name)]])
         \<longrightarrow> get_nearby_heritage http fmt la lo radius lang
             = Inr \<lparr>center = \<lparr>lat = la, lon = lo\<rparr>, radius_km = radius, nearby_total = 1,
                    places = [\<lparr>place_id = replace name '' '' ''_'', place_title = JStr name,
                               distance = JNum 0,
                               place_coordinates = \<lparr>lat = JNum 0, lon = JNum 0\<rparr>\<rparr>]\<rparr>)
     \<and> ((\<forall>r. url r = wikipedia_host \<longrightarrow> http 0 r = Inl e)
         \<longrightarrow> search_wikipedia http query lang limit = JArr []
             \<and> get_article_content http t lang = JObj []
             \<and> get_nearby_heritage http fmt la lo radius lang
                 = Inl (HTTPException 500 ''Nearby search service unavailable''))
     \<and> ((\<forall>r. url r = wikivoyage_host \<longrightarrow> http 0 r = Inl e)
         \<longrightarrow> get_wikivoyage_content http t lang = JObj []))"
  unfolding Let_def wiki_lang_eq[symmetric]
proof (intro conjI impI)
  assume "(\<forall>r. url r = ''https://'' @ wiki_lang lang @ ''.wikipedia.org/w/api.php''
              \<longrightarrow> http 0 r = Inr resp)
         \<and> get_path resp ''query'' ''search'' = Inr hits"
  then show "search_wikipedia http query lang limit = hits"
    using search_wikipedia_answer(1) [of lang http "Inr resp" resp hits query limit] by blast
next
  assume "(\<forall>r. url r = ''https://'' @ wiki_lang lang @ ''.wikipedia.org/w/api.php''
              \<longrightarrow> http 0 r = Inr resp)
         \<and> get_path resp ''query'' ''pages'' = Inr pages \<and> py_first_value pages = Inr page"
  then show "get_article_content http t lang = page"
    using get_article_content_answer(1) [of lang http "Inr resp" resp pages page t] by blast
next
  assume "(\<forall>r. url r = ''https://'' @ wiki_lang lang @ ''.wikivoyage.org/w/api.php''
              \<longrightarrow> http 0 r = Inr resp)
         \<and> get_path resp ''query'' ''pages'' = Inr pages \<and> py_first_value pages = Inr page"
  then show "get_wikivoyage_content http t lang = page"
    using get_wikivoyage_content_answer(1) [of lang http "Inr resp" resp pages page t] by blast
next
  assume "(\<forall>r. url r = ''https://'' @ wiki_lang lang @ ''.wikipedia.org/w/api.php''
              \<longrightarrow> http 0 r = Inr resp)
         \<and> get_path resp ''query'' ''geosearch'' = Inr (JArr [JObj [(''title'', JStr name)]])"
  then show "get_nearby_heritage http fmt la lo radius lang
             = Inr \<lparr>center = \<lparr>lat = la, lon = lo\<rparr>, radius_km = radius, nearby_total = 1,
                    places = [\<lparr>place_id = replace name '' '' ''_'', place_title = JStr name,
                               distance = JNum 0,
                               place_coordinates = \<lparr>lat = JNum 0, lon = JNum 0\<rparr>\<rparr>]\<rparr>"
    using get_nearby_heritage_answer(1) [of lang http "Inr resp" resp name fmt la lo radius]
    by blast
next
  assume a: "\<forall>r. url r = ''https://'' @ wiki_lang lang @ ''.wikipedia.org/w/api.php''
              \<longrightarrow> http 0 r = Inl e"
  show "search_wikipedia http query lang limit = JArr []"
    using search_wikipedia_answer(2) [where http = http and answer = "Inl e", OF a] by blast
  show "get_article_content http t lang = JObj []"
    using get_article_content_answer(2) [where http = http and answer = "Inl e", OF a] by blast
  show "get_nearby_heritage http fmt la lo radius lang
                 = Inl (HTTPException 500 ''Nearby search service unavailable'')"
    using get_nearby_heritage_answer(2) [where http = http and answer = "Inl e", OF a] by blast
next
  assume a: "\<forall>r. url r = ''https://'' @ wiki_lang lang @ ''.wikivoyage.org/w/api.php''
              \<longrightarrow> http 0 r = Inl e"
  show "get_wikivoyage_content http t lang = JObj []"
    using get_wikivoyage_content_answer(2) [where http = http and answer = "Inl e", OF a] by blast
qed (simp_all add: search_wikipedia_request_def article_request_def wikivoyage_request_def
      nearby_request_def search_wikipedia_def get_article_content_def
      get_wikivoyage_content_def get_nearby_heritage_def wiki_lang_idem)

lemma http_only_answers:
  "\<forall>r. url r = address \<longrightarrow> http_only address 0 r = Inr lal_qila"
  by (simp add: http_only_def)

lemma http_only_elsewhere:
  "\<forall>r. url r = ''https://en.wikipedia.org/w/api.php''
         \<longrightarrow> http_only ''https://hi.wikipedia.org/w/api.php'' 0 r = Inl TransportError"
  by (simp add: http_only_def)

lemma lal_qila_parts:
  "get_path lal_qila ''query'' ''search'' = Inr (JArr [JObj [(''title'', JStr ''Lal Qila'')]])"
  "get_path lal_qila ''query'' ''pages''
     = Inr (JObj [(''7'', JObj [(''title'', JStr ''Lal Qila'')])])"
  "py_first_value (JObj [(''7'', JObj [(''title'', JStr ''Lal Qila'')])])
     = Inr (JObj [(''title'', JStr ''Lal Qila'')])"
  "get_path lal_qila ''query'' ''geosearch''
     = Inr (JArr [JObj [(''title'', JStr ''Lal Qila'')]])"
  by (simp_all add: lal_qila_def get_path_def)

theorem C8_language_fallback_witness:
  "url (article_request ''Red Fort'' ''fr'') = ''https://en.wikipedia.org/w/api.php''
   \<and> url (article_request ''Red Fort'' ''hi'') = ''https://hi.wikipedia.org/w/api.php''
   \<and> url (wikivoyage_request ''Red Fort'' ''fr'') = ''https://en.wikivoyage.org/w/api.php''
   \<and> url (wikivoyage_request ''Red Fort'' ''ta'') = ''https://ta.wikivoyage.org/w/api.php''
   \<and> url (search_wikipedia_request ''fort'' ''fr'' 10) = ''https://en.wikipedia.org/w/api.php''
   \<and> url (search_wikipedia_request ''fort'' ''bn'' 10) = ''https://bn.wikipedia.org/w/api.php''
   \<and> url (nearby_request coord_text 0 0 10 ''fr'') = ''https://en.wikipedia.org/w/api.php''
   \<and> url (nearby_request coord_text 0 0 10 ''te'') = ''https://te.wikipedia.org/w/api.php''
   \<and> search_wikipedia (http_only ''https://hi.wikipedia.org/w/api.php'') ''fort'' ''hi'' 10
       = JArr [JObj [(''title'', JStr ''Lal Qila'')]]
   \<and> search_wikipedia (http_only ''https://en.wikipedia.org/w/api.php'') ''fort'' ''fr'' 10
       = JArr [JObj [(''title'', JStr ''Lal Qila'')]]
   \<and> search_wikipedia (http_only ''https://hi.wikipedia.org/w/api.php'') ''fort'' ''fr'' 10
       = JArr []
   \<and> get_article_content (http_only ''https://hi.wikipedia.org/w/api.php'') ''Red Fort'' ''hi''
       = JObj [(''title'', JStr ''Lal Qila'')]
   \<and> get_wikivoyage_content (http_only ''https://hi.wikivoyage.org/w/api.php'') ''Red Fort'' ''hi''
       = JObj [(''title'', JStr ''Lal Qila'')]
   \<and> get_nearby_heritage (http_only ''https://hi.wikipedia.org/w/api.php'') coord_text 0 0 10 ''hi''
       = Inr \<lparr>center = \<lparr>lat = 0, lon = 0\<rparr>, radius_km = 10, nearby_total = 1,
              places = [\<lparr>place_id = ''Lal_Qila'', place_title = JStr ''Lal Qila'',
                         distance = JNum 0,
                         place_coordinates = \<lparr>lat = JNum 0, lon = JNum 0\<rparr>\<rparr>]\<rparr>"
proof -
  note hi = C8_language_fallback [where lang = "''hi''" and query = "''fort''" and limit = 10
      and t = "''Red Fort''" and fmt = coord_text and la = 0 and lo = 0 and radius = 10
      and resp = lal_qila and hits = "JArr [JObj [(''title'', JStr ''Lal Qila'')]]"
      and pages = "JObj [(''7'', JObj [(''title'', JStr ''Lal Qila'')])]"
      and page = "JObj [(''title'', JStr ''Lal Qila'')]" and name = "''Lal Qila''"
      and e = TransportError, unfolded Let_def]
  note fr = C8_language_fallback [where lang = "''fr''" and query = "''fort''" and limit = 10
      and t = "''Red Fort''" and fmt = coord_text and la = 0 and lo = 0 and radius = 10
      and resp = lal_qila and hits = "JArr [JObj [(''title'', JStr ''Lal Qila'')]]"
      and pages = "JObj [(''7'', JObj [(''title'', JStr ''Lal Qila'')])]"
      and page = "JObj [(''title'', JStr ''Lal Qila'')]" and name = "''Lal Qila''"
      and e = TransportError, unfolded Let_def]
  have urls: "url (article_request ''Red Fort'' ''fr'') = ''https://en.wikipedia.org/w/api.php''
   \<and> url (article_request ''Red Fort'' ''hi'') = ''https://hi.wikipedia.org/w/api.php''
   \<and> url (wikivoyage_request ''Red Fort'' ''fr'') = ''https://en.wikivoyage.org/w/api.php''
   \<and> url (wikivoyage_request ''Red Fort'' ''ta'') = ''https://ta.wikivoyage.org/w/api.php''
   \<and> url (search_wikipedia_request ''fort'' ''fr'' 10) = ''https://en.wikipedia.org/w/api.php''
   \<and> url (search_wikipedia_request ''fort'' ''bn'' 10) = ''https://bn.wikipedia.org/w/api.php''
   \<and> url (nearby_request coord_text 0 0 10 ''fr'') = ''https://en.wikipedia.org/w/api.php''
   \<and> url (nearby_request coord_text 0 0 10 ''te'') = ''https://te.wikipedia.org/w/api.php''"
    using C8_language_fallback [of "''fr''" "''fort''" 10 "''Red Fort''" coord_text 0 0 10]
      C8_language_fallback [of "''hi''" "''fort''" 10 "''Red Fort''" coord_text 0 0 10]
      C8_language_fallback [of "''ta''" "''fort''" 10 "''Red Fort''" coord_text 0 0 10]
      C8_language_fallback [of "''bn''" "''fort''" 10 "''Red Fort''" coord_text 0 0 10]
      C8_language_fallback [of "''te''" "''fort''" 10 "''Red Fort''" coord_text 0 0 10]
    by (simp add: Let_def)
  have s1: "search_wikipedia (http_only ''https://hi.wikipedia.org/w/api.php'') ''fort'' ''hi'' 10
       = JArr [JObj [(''title'', JStr ''Lal Qila'')]]"
    using hi [where http = "http_only ''https://hi.wikipedia.org/w/api.php''", simplified]
      http_only_answers lal_qila_parts
    by blast
  have s2: "search_wikipedia (http_only ''https://en.wikipedia.org/w/api.php'') ''fort'' ''fr'' 10
       = JArr [JObj [(''title'', JStr ''Lal Qila'')]]"
    using fr [where http = "http_only ''https://en.wikipedia.org/w/api.php''", simplified]
      http_only_answers lal_qila_parts
    by blast
  have s3: "search_wikipedia (http_only ''https://hi.wikipedia.org/w/api.php'') ''fort'' ''fr'' 10
       = JArr []"
    using fr [where http = "http_only ''https://hi.wikipedia.org/w/api.php''", simplified]
      http_only_elsewhere
    by blast
  have a1: "get_article_content (http_only ''https://hi.wikipedia.org/w/api.php'') ''Red Fort'' ''hi''
       = JObj [(''title'', JStr ''Lal Qila'')]"
    using hi [where http = "http_only ''https://hi.wikipedia.org/w/api.php''", simplified]
      http_only_answers lal_qila_parts
    by blast
  have v1: "get_wikivoyage_content (http_only ''https://hi.wikivoyage.org/w/api.php'') ''Red Fort'' ''hi''
       = JObj [(''title'', JStr ''Lal Qila'')]"
    using hi [where http = "http_only ''https://hi.wikivoyage.org/w/api.php''", simplified]
      http_only_answers lal_qila_parts
    by blast
  have n1: "get_nearby_heritage (http_only ''https://hi.wikipedia.org/w/api.php'') coord_text 0 0 10 ''hi''
       = Inr \<lparr>center = \<lparr>lat = 0, lon = 0\<rparr>, radius_km = 10, nearby_total = 1,
              places = [\<lparr>place_id = ''Lal_Qila'', place_title = JStr ''Lal Qila'',
                         distance = JNum 0,
                         place_coordinates = \<lparr>lat = JNum 0, lon = JNum 0\<rparr>\<rparr>]\<rparr>"
    using hi [where http = "http_only ''https://hi.wikipedia.org/w/api.php''", simplified]
      http_only_answers lal_qila_parts(4)
    by (simp add: replace_char)
  from urls s1 s2 s3 a1 v1 n1 show ?thesis by (intro conjI) blast+
qed

subsection \<open>The geosearch\<close>

















subsection \<open>The example text\<close>

lemma fort_text_years:
  "findall_years None
     ''The fort was built in 1565 and renovated in the 19th century. It is a famous temple.''
   = [''1565'']"
  by code_simp

lemma fort_text_centuries:
  "findall_centuries None
     ''The fort was built in 1565 and renovated in the 19th century. It is a famous temple.''
   = [(''19'', ''th'')]"
  by code_simp

lemma fort_text_facts:
  "extract_heritage_facts
     (JStr ''The fort was built in 1565 and renovated in the 19th century. It is a famous temple.'')
   = Inr [''The fort was built in 1565 and renovated in the 19th century.'',
          ''It is a famous temple..'']"
  by code_simp

lemma fort_text_split:
  "split ''The fort was built in 1565 and renovated in the 19th century. It is a famous temple.''
     ''. ''
   = [''The fort was built in 1565 and renovated in the 19th century'',
      ''It is a famous temple.'']"
  by code_simp

lemma fort_text_timeline:
  assumes "set_order iter"
  shows "extract_historical_dates iter
        (JStr ''The fort was built in 1565 and renovated in the 19th century. It is a famous temple.'')
      = Inr [\<lparr>period = ''1565'', type = ''year''\<rparr>,
             \<lparr>period = ''19th century'', type = ''century''\<rparr>]"
proof -
  have "iter [''1565''] = [''1565'']"
    using assms by (rule set_order_single)
  then show ?thesis
    by (simp only: extract_historical_dates_JStr fort_text_years fort_text_centuries) simp
qed

text \<open>
  C5. The text of the example splits into two sentences; \<open>extract_heritage_facts\<close>
  returns both, each with a full stop appended (the second sentence keeps its own full
  stop as well), and \<open>extract_historical_dates\<close> returns the year 1565 followed by the
  19th century, whatever the order in which the set of years is visited.
\<close>

theorem C5_fort_text:
  "split ''The fort was built in 1565 and renovated in the 19th century. It is a famous temple.''
     ''. ''
   = [''The fort was built in 1565 and renovated in the 19th century'',
      ''It is a famous temple.'']
   \<and> extract_heritage_facts
     (JStr ''The fort was built in 1565 and renovated in the 19th century. It is a famous temple.'')
   = Inr [''The fort was built in 1565 and renovated in the 19th century.'',
          ''It is a famous temple..'']
   \<and> (set_order iter \<longrightarrow>
      extract_historical_dates iter
        (JStr ''The fort was built in 1565 and renovated in the 19th century. It is a famous temple.'')
      = Inr [\<lparr>period = ''1565'', type = ''year''\<rparr>,
             \<lparr>period = ''19th century'', type = ''century''\<rparr>])"
  using fort_text_split fort_text_facts fort_text_timeline by blast

theorem C5_fort_text_witness:
  "set_order remdups \<and>
   extract_historical_dates remdups
        (JStr ''The fort was built in 1565 and renovated in the 19th century. It is a famous temple.'')
      = Inr [\<lparr>period = ''1565'', type = ''year''\<rparr>,
             \<lparr>period = ''19th century'', type = ''century''\<rparr>]"
  using C5_fort_text [of remdups] set_order_remdups by blast

subsection \<open>Facts and cultural notes\<close>

lemma is_substr_iff: "is_substr k s \<longleftrightarrow> (\<exists>u v. s = u @ k @ v)"
proof (induction s)
  case Nil
  show ?case by simp
next
  case (Cons c cs)
  show ?case
  proof
    assume "is_substr k (c # cs)"
    then consider "prefix k (c # cs)" | "is_substr k cs" by auto
    then show "\<exists>u v. c # cs = u @ k @ v"
    proof cases
      case 1
      then obtain v where "c # cs = k @ v" by (auto simp: prefix_def)
      then have "c # cs = [] @ k @ v" by simp
      then show ?thesis by blast
    next
      case 2
      with Cons.IH obtain u v where "cs = u @ k @ v" by blast
      then have "c # cs = (c # u) @ k @ v" by simp
      then show ?thesis by blast
    qed
  next
    assume "\<exists>u v. c # cs = u @ k @ v"
    then obtain u v where uv: "c # cs = u @ k @ v" by blast
    show "is_substr k (c # cs)"
    proof (cases u)
      case Nil
      with uv have "prefix k (c # cs)" by (simp add: prefix_def)
      then show ?thesis by simp
    next
      case (Cons d u')
      with uv have "cs = u' @ k @ v" by simp
      with Cons.IH have "is_substr k cs" by blast
      then show ?thesis by simp
    qed
  qed
qed

lemma strip_fixed:
  assumes "s = [] \<or> (\<not> is_space (hd s) \<and> \<not> is_space (last s))"
  shows "strip s = s"
proof (cases "s = []")
  case True
  then show ?thesis by (simp add: strip_def)
next
  case False
  with assms have h: "\<not> is_space (hd s)" and l: "\<not> is_space (last s)" by auto
  from h have "dropWhile is_space s = s"
    by (simp add: dropWhile_eq_self_iff)
  moreover from l False have "dropWhile is_space (rev s) = rev s"
    by (simp add: dropWhile_eq_self_iff hd_rev)
  ultimately show ?thesis by (simp add: strip_def)
qed

lemma strip_ends:
  "strip s = [] \<or> (\<not> is_space (hd (strip s)) \<and> \<not> is_space (last (strip s)))"
proof (cases "strip s = []")
  case True
  then show ?thesis by simp
next
  case False
  define d where "d = dropWhile is_space s"
  define r where "r = dropWhile is_space (rev d)"
  have s: "strip s = rev r" by (simp add: strip_def d_def r_def)
  with False have r: "r \<noteq> []" by simp
  then have "\<not> is_space (hd r)" unfolding r_def by (rule hd_dropWhile)
  then have last: "\<not> is_space (last (strip s))" using r by (simp add: s last_rev)
  from r obtain x where x: "x \<in> set (rev d)" "\<not> is_space x"
    unfolding r_def by (auto simp: dropWhile_eq_Nil_conv)
  then have "last r = last (rev d)" unfolding r_def by (rule dropWhile_last)
  moreover from x have "d \<noteq> []" by auto
  then have "\<not> is_space (hd d)" unfolding d_def by (rule hd_dropWhile)
  ultimately have "\<not> is_space (hd (strip s))"
    using \<open>d \<noteq> []\<close> by (simp add: s hd_rev last_rev)
  with last show ?thesis by simp
qed

lemma strip_strip: "strip (strip s) = strip s"
  by (rule strip_fixed) (rule strip_ends)

lemma strip_full_stop:
  assumes "t \<noteq> []" and "strip t = t"
  shows "strip (t @ ''.'') = t @ ''.''"
proof (rule strip_fixed)
  from strip_ends [of t] assms have "\<not> is_space (hd t)" by simp
  moreover have "\<not> is_space CHR ''.''" by (simp add: is_space_def)
  ultimately show "t @ ''.'' = [] \<or>
      (\<not> is_space (hd (t @ ''.'')) \<and> \<not> is_space (last (t @ ''.'')))"
    using assms(1) by simp
qed

lemma keyword_loop_filter:
  "keyword_loop kws acc ss =
     acc @ map (\<lambda>t. t @ ''.'')
             (filter (\<lambda>t. 20 < length t \<and> list_ex (\<lambda>k. is_substr k (lower t)) kws)
                (map strip ss))"
  by (induction ss arbitrary: acc) (simp_all add: Let_def)

lemma keyword_sentences:
  assumes "fs = take n (keyword_loop kws [] (split s ''. ''))"
  shows "length fs \<le> n"
    and "subseq fs (map (\<lambda>p. strip p @ ''.'') (split s ''. ''))"
    and "\<forall>f \<in> set fs. \<exists>p \<in> set (split s ''. '').
            f = strip p @ ''.'' \<and> 20 < length (strip p) \<and> strip (strip p) = strip p
            \<and> (\<exists>k \<in> set kws. \<exists>u v. lower (strip p) = u @ k @ v)
            \<and> 20 < length f \<and> strip f = f
            \<and> (\<exists>k \<in> set kws. \<exists>u v. lower f = u @ k @ v)"
proof -
  let ?keep = "\<lambda>t. 20 < length t \<and> list_ex (\<lambda>k. is_substr k (lower t)) kws"
  let ?kept = "filter ?keep (map strip (split s ''. ''))"
  have fs: "fs = take n (map (\<lambda>t. t @ ''.'') ?kept)"
    using assms by (simp add: keyword_loop_filter)
  show "length fs \<le> n" by (simp add: fs)
  have "subseq fs (map (\<lambda>t. t @ ''.'') ?kept)"
    unfolding fs by (intro prefix_imp_subseq take_is_prefix)
  also have "subseq (map (\<lambda>t. t @ ''.'') ?kept)
               (map (\<lambda>t. t @ ''.'') (map strip (split s ''. '')))"
    by (intro subseq_map subseq_filter_left)
  finally show "subseq fs (map (\<lambda>p. strip p @ ''.'') (split s ''. ''))"
    by (simp add: comp_def)
  show "\<forall>f \<in> set fs. \<exists>p \<in> set (split s ''. '').
            f = strip p @ ''.'' \<and> 20 < length (strip p) \<and> strip (strip p) = strip p
            \<and> (\<exists>k \<in> set kws. \<exists>u v. lower (strip p) = u @ k @ v)
            \<and> 20 < length f \<and> strip f = f
            \<and> (\<exists>k \<in> set kws. \<exists>u v. lower f = u @ k @ v)"
  proof
    fix f assume "f \<in> set fs"
    then have "f \<in> set (map (\<lambda>t. t @ ''.'') ?kept)"
      unfolding fs by (rule in_set_takeD)
    then obtain p where p: "p \<in> set (split s ''. '')" and f: "f = strip p @ ''.''"
      and len: "20 < length (strip p)"
      and kw: "list_ex (\<lambda>k. is_substr k (lower (strip p))) kws"
      by auto
    from kw obtain k u v where k: "k \<in> set kws" and uv: "lower (strip p) = u @ k @ v"
      by (auto simp: list_ex_iff is_substr_iff)
    have "lower ''.'' = ''.''"
      by (simp add: lower_def lower_char_def)
    with uv have "lower f = u @ k @ (v @ ''.'')"
      by (simp add: f lower_def)
    with k have kf: "\<exists>k \<in> set kws. \<exists>u v. lower f = u @ k @ v" by blast
    from len have "strip p \<noteq> []" by auto
    then have "strip f = f"
      unfolding f by (rule strip_full_stop) (rule strip_strip)
    with p f len k uv kf strip_strip [of p]
    show "\<exists>p \<in> set (split s ''. '').
            f = strip p @ ''.'' \<and> 20 < length (strip p) \<and> strip (strip p) = strip p
            \<and> (\<exists>k \<in> set kws. \<exists>u v. lower (strip p) = u @ k @ v)
            \<and> 20 < length f \<and> strip f = f
            \<and> (\<exists>k \<in> set kws. \<exists>u v. lower f = u @ k @ v)"
      by (intro bexI[of _ p]) auto
  qed
qed

lemma extract_heritage_facts_JStr:
  "extract_heritage_facts (JStr s) =
     Inr (if s = [] then [] else take 5 (keyword_loop heritage_keywords [] (split s ''. '')))"
  by (simp add: extract_heritage_facts_def)

lemma extract_cultural_info_JStr:
  "extract_cultural_info (JStr s) =
     Inr (if s = [] then [] else take 3 (keyword_loop cultural_keywords [] (split s ''. '')))"
  by (simp add: extract_cultural_info_def)

lemma split_empty: "split [] sep = [[]]"
  by (simp add: split_def)

lemma keyword_loop_empty_text: "take n (keyword_loop kws [] (split [] ''. '')) = []"
  by (simp add: split_empty strip_def)

text \<open>
  C4. For every text, \<open>extract_heritage_facts\<close> returns at most 5 strings and
  \<open>extract_cultural_info\<close> at most 3, in the order of the sentences of the text (the
  pieces between the separators \<^verbatim>\<open>". "\<close>). Every returned string is a trimmed sentence
  with a full stop appended; the sentence has more than 20 characters and its lower-case
  form contains a keyword of the respective list, and so has and does the returned
  string. An empty text and a missing one (\<^verbatim>\<open>None\<close>) give empty sequences.
\<close>

theorem C4_keyword_sentences:
  "\<exists>facts cultural.
     extract_heritage_facts (JStr s) = Inr facts
     \<and> extract_cultural_info (JStr s) = Inr cultural
     \<and> length facts \<le> 5 \<and> length cultural \<le> 3
     \<and> subseq facts (map (\<lambda>p. strip p @ ''.'') (split s ''. ''))
     \<and> subseq cultural (map (\<lambda>p. strip p @ ''.'') (split s ''. ''))
     \<and> (\<forall>f \<in> set facts. \<exists>p \<in> set (split s ''. '').
            f = strip p @ ''.'' \<and> 20 < length (strip p) \<and> strip (strip p) = strip p
            \<and> (\<exists>k \<in> set heritage_keywords. \<exists>u v. lower (strip p) = u @ k @ v)
            \<and> 20 < length f \<and> strip f = f
            \<and> (\<exists>k \<in> set heritage_keywords. \<exists>u v. lower f = u @ k @ v))
     \<and> (\<forall>f \<in> set cultural. \<exists>p \<in> set (split s ''. '').
            f = strip p @ ''.'' \<and> 20 < length (strip p) \<and> strip (strip p) = strip p
            \<and> (\<exists>k \<in> set cultural_keywords. \<exists>u v. lower (strip p) = u @ k @ v)
            \<and> 20 < length f \<and> strip f = f
            \<and> (\<exists>k \<in> set cultural_keywords. \<exists>u v. lower f = u @ k @ v))
     \<and> extract_heritage_facts (JStr []) = Inr [] \<and> extract_cultural_info (JStr []) = Inr []
     \<and> extract_heritage_facts JNull = Inr [] \<and> extract_cultural_info JNull = Inr []"
proof -
  define facts where "facts = take 5 (keyword_loop heritage_keywords [] (split s ''. ''))"
  define cultural where "cultural = take 3 (keyword_loop cultural_keywords [] (split s ''. ''))"
  have "extract_heritage_facts (JStr s) = Inr facts"
    by (simp add: extract_heritage_facts_JStr facts_def keyword_loop_empty_text)
  moreover have "extract_cultural_info (JStr s) = Inr cultural"
    by (simp add: extract_cultural_info_JStr cultural_def keyword_loop_empty_text)
  moreover have "extract_heritage_facts JNull = Inr []" "extract_cultural_info JNull = Inr []"
    by (simp_all add: extract_heritage_facts_def extract_cultural_info_def)
  moreover note keyword_sentences [OF facts_def] keyword_sentences [OF cultural_def]
  ultimately show ?thesis
    by (intro exI[of _ facts] exI[of _ cultural] conjI) (simp_all only: extract_empty)
qed

lemma temple_text_facts:
  "extract_heritage_facts
     (JStr ''The temple was built in the 12th century. It is a sacred place of worship. Small fort.'')
   = Inr [''The temple was built in the 12th century.'']"
  by code_simp

lemma temple_text_cultural:
  "extract_cultural_info
     (JStr ''The temple was built in the 12th century. It is a sacred place of worship. Small fort.'')
   = Inr [''It is a sacred place of worship.'']"
  by code_simp

theorem C4_keyword_sentences_witness:
  "extract_heritage_facts
     (JStr ''The temple was built in the 12th century. It is a sacred place of worship. Small fort.'')
     = Inr [''The temple was built in the 12th century.'']
   \<and> extract_cultural_info
     (JStr ''The temple was built in the 12th century. It is a sacred place of worship. Small fort.'')
     = Inr [''It is a sacred place of worship.'']
   \<and> 20 < length ''The temple was built in the 12th century.''
   \<and> strip ''The temple was built in the 12th century.''
       = ''The temple was built in the 12th century.''
   \<and> (\<exists>k u v. k \<in> set heritage_keywords
         \<and> lower ''The temple was built in the 12th century.'' = u @ k @ v)
   \<and> 20 < length ''It is a sacred place of worship.''
   \<and> strip ''It is a sacred place of worship.'' = ''It is a sacred place of worship.''
   \<and> (\<exists>k u v. k \<in> set cultural_keywords
         \<and> lower ''It is a sacred place of worship.'' = u @ k @ v)"
proof -
  let ?T = "''The temple was built in the 12th century. It is a sacred place of worship. Small fort.''"
  let ?F = "''The temple was built in the 12th century.''"
  let ?C = "''It is a sacred place of worship.''"
  from C4_keyword_sentences [of ?T] obtain facts cultural where
    f: "extract_heritage_facts (JStr ?T) = Inr facts" and
    c: "extract_cultural_info (JStr ?T) = Inr cultural" and
    pf: "\<forall>f \<in> set facts. \<exists>p \<in> set (split ?T ''. '').
            f = strip p @ ''.'' \<and> 20 < length (strip p) \<and> strip (strip p) = strip p
            \<and> (\<exists>k \<in> set heritage_keywords. \<exists>u v. lower (strip p) = u @ k @ v)
            \<and> 20 < length f \<and> strip f = f
            \<and> (\<exists>k \<in> set heritage_keywords. \<exists>u v. lower f = u @ k @ v)" and
    pc: "\<forall>f \<in> set cultural. \<exists>p \<in> set (split ?T ''. '').
            f = strip p @ ''.'' \<and> 20 < length (strip p) \<and> strip (strip p) = strip p
            \<and> (\<exists>k \<in> set cultural_keywords. \<exists>u v. lower (strip p) = u @ k @ v)
            \<and> 20 < length f \<and> strip f = f
            \<and> (\<exists>k \<in> set cultural_keywords. \<exists>u v. lower f = u @ k @ v)"
    by blast
  from f temple_text_facts have "facts = [?F]" by (simp only: sum.inject)
  with pf have 1: "20 < length ?F \<and> strip ?F = ?F
      \<and> (\<exists>k u v. k \<in> set heritage_keywords \<and> lower ?F = u @ k @ v)"
    by (simp only: list.set ball_simps bex_simps insert_iff empty_iff) blast
  from c temple_text_cultural have "cultural = [?C]" by (simp only: sum.inject)
  with pc have 2: "20 < length ?C \<and> strip ?C = ?C
      \<and> (\<exists>k u v. k \<in> set cultural_keywords \<and> lower ?C = u @ k @ v)"
    by (simp only: list.set ball_simps bex_simps insert_iff empty_iff) blast
  from temple_text_facts temple_text_cultural 1 2 show ?thesis
    by (intro conjI) blast+
qed

subsection \<open>The timeline\<close>

lemma year_group_take: "year_group s \<Longrightarrow> length (take 4 s) = 4 \<and> year_group (take 4 s)"
  by (auto simp: year_group_def split: list.splits)

lemma findall_years_sound:
  "y \<in> set (findall_years prev s) \<Longrightarrow>
     length y = 4 \<and> year_group y \<and> (\<exists>u v. s = u @ y @ v)"
proof (induction prev s rule: findall_years.induct)
  case (1 prev)
  then show ?case by simp
next
  case (2 prev c cs)
  show ?case
  proof (cases "year_match prev (c # cs)")
    case True
    with "2.prems" consider "y = take 4 (c # cs)"
      | "y \<in> set (findall_years (char_at (c # cs) 3) (drop 4 (c # cs)))"
      by auto
    then show ?thesis
    proof cases
      case 1
      from True have "year_group (c # cs)" by (simp add: year_match_def)
      from year_group_take [OF this] 1
      have "length y = 4 \<and> year_group y" by simp
      moreover have "c # cs = [] @ y @ drop 4 (c # cs)"
        unfolding 1 by simp
      ultimately show ?thesis by blast
    next
      case 2
      from "2.IH"(1) [OF True 2] obtain u v where
        y: "length y = 4 \<and> year_group y" and uv: "drop 4 (c # cs) = u @ y @ v"
        by blast
      have "c # cs = take 4 (c # cs) @ drop 4 (c # cs)" by simp
      with uv have "c # cs = (take 4 (c # cs) @ u) @ y @ v" by simp
      with y show ?thesis by blast
    qed
  next
    case False
    with "2.prems" have "y \<in> set (findall_years (Some c) cs)" by simp
    from "2.IH"(2) [OF False this] obtain u v where
      y: "length y = 4 \<and> year_group y" and uv: "cs = u @ y @ v"
      by blast
    from uv have "c # cs = (c # u) @ y @ v" by simp
    with y show ?thesis by blast
  qed
qed

lemma filter_eq_distinct:
  "distinct xs \<Longrightarrow> filter (\<lambda>y. y = c) xs = (if c \<in> set xs then [c] else [])"
  by (induction xs) auto

lemma set_order_filter:
  assumes "set_order p" and "set_order q"
  shows "filter (\<lambda>y. y = c) (p xs) = filter (\<lambda>y. y = c) (q xs)"
  using assms by (simp add: set_order_def filter_eq_distinct)

lemma set_order_mset:
  "set_order p \<Longrightarrow> mset (p xs) = mset_set (set xs)"
  by (metis mset_set_set set_order_def)

lemma sort_key_years_order:
  assumes p: "set_order p" and q: "set_order q"
  shows "sort_key period (map (\<lambda>y. \<lparr>period = y, type = ''year''\<rparr>) (p years) @ cs)
       = sort_key period (map (\<lambda>y. \<lparr>period = y, type = ''year''\<rparr>) (q years) @ cs)"
    (is "sort_key period (?A @ cs) = sort_key period (?B @ cs)")
proof (rule properties_for_sort_key)
  show "mset (sort_key period (?B @ cs)) = mset (?A @ cs)"
    using p q by (simp add: set_order_mset)
  show "sorted (map period (sort_key period (?B @ cs)))"
    by (rule sorted_sort_key)
  fix k
  have "filter (\<lambda>x. period k = period x) (sort_key period (?B @ cs))
          = filter (\<lambda>x. period x = period k) (sort_key period (?B @ cs))"
    by (rule filter_cong) auto
  also have "\<dots> = filter (\<lambda>x. period x = period k) (?B @ cs)"
    by (rule sort_key_stable)
  also have "\<dots> = filter (\<lambda>x. period x = period k) (?A @ cs)"
    using set_order_filter [OF q p, of "period k" years]
    by (simp add: filter_map comp_def)
  also have "\<dots> = filter (\<lambda>x. period k = period x) (?A @ cs)"
    by (rule filter_cong) auto
  finally show "filter (\<lambda>x. period k = period x) (sort_key period (?B @ cs))
          = filter (\<lambda>x. period k = period x) (?A @ cs)" .
qed

lemma extract_historical_dates_order:
  assumes "set_order p" and "set_order q"
  shows "extract_historical_dates p text = extract_historical_dates q text"
proof (cases "text")
  case (JStr s)
  then show ?thesis
    by (simp only: extract_historical_dates_JStr sort_key_years_order [OF assms])
qed (simp_all add: extract_historical_dates_def)

lemma merge_sources_order:
  assumes "set_order p" and "set_order q"
  shows "merge_sources p lid t lang gw gi gv = merge_sources q lid t lang gw gi gv"
  by (simp add: merge_sources_def extract_historical_dates_order [OF assms])

text \<open>
  C10. The three text-derivation functions are functions of the text alone, but for the
  order in which \<open>extract_historical_dates\<close> visits the set of years. That order does not
  show in the result: any two orders give the same timeline on every text, and hence the
  same composite record on every upstream, location id and language.
\<close>

theorem C10_timeline_independent_of_set_order:
  "set_order p \<and> set_order q \<longrightarrow>
     extract_historical_dates p text = extract_historical_dates q text
     \<and> get_heritage_content http p lid lang = get_heritage_content http q lid lang"
  by (auto simp: get_heritage_content_def Let_def extract_historical_dates_order
      merge_sources_order [of p q])

lemma set_order_sort_remdups: "set_order (sort \<circ> remdups)"
  by (simp add: set_order_def)

lemma siege_text_years:
  "findall_years None ''Rebuilt in 1857 after the siege; founded in 1638.'' = [''1857'', ''1638'']"
  by code_simp

lemma siege_text_timeline:
  "extract_historical_dates remdups (JStr ''Rebuilt in 1857 after the siege; founded in 1638.'')
     = Inr [\<lparr>period = ''1638'', type = ''year''\<rparr>, \<lparr>period = ''1857'', type = ''year''\<rparr>]"
  by code_simp

theorem C10_timeline_independent_of_set_order_witness:
  "set_order remdups \<and> set_order (sort \<circ> remdups)
   \<and> remdups (findall_years None ''Rebuilt in 1857 after the siege; founded in 1638.'')
       = [''1857'', ''1638'']
   \<and> (sort \<circ> remdups) (findall_years None ''Rebuilt in 1857 after the siege; founded in 1638.'')
       = [''1638'', ''1857'']
   \<and> extract_historical_dates (sort \<circ> remdups)
        (JStr ''Rebuilt in 1857 after the siege; founded in 1638.'')
       = Inr [\<lparr>period = ''1638'', type = ''year''\<rparr>, \<lparr>period = ''1857'', type = ''year''\<rparr>]"
proof -
  from C10_timeline_independent_of_set_order [of remdups "sort \<circ> remdups"
      "JStr ''Rebuilt in 1857 after the siege; founded in 1638.''"]
    set_order_remdups set_order_sort_remdups
  have "extract_historical_dates remdups
          (JStr ''Rebuilt in 1857 after the siege; founded in 1638.'')
        = extract_historical_dates (sort \<circ> remdups)
          (JStr ''Rebuilt in 1857 after the siege; founded in 1638.'')"
    by blast
  with siege_text_timeline have "extract_historical_dates (sort \<circ> remdups)
        (JStr ''Rebuilt in 1857 after the siege; founded in 1638.'')
       = Inr [\<lparr>period = ''1638'', type = ''year''\<rparr>, \<lparr>period = ''1857'', type = ''year''\<rparr>]"
    by (simp only:)
  moreover have "remdups [''1857'', ''1638''] = [''1857'', ''1638'']"
    "(sort \<circ> remdups) [''1857'', ''1638''] = [''1638'', ''1857'']"
    by simp_all
  ultimately show ?thesis
    using set_order_remdups set_order_sort_remdups
    by (simp only: siege_text_years)
qed

lemma concat_map_upt_split:
  "k \<le> m \<Longrightarrow>
   concat (map f [0..<m]) = concat (map f [0..<k]) @ concat (map (\<lambda>j. f (j + k)) [0..<m - k])"
proof -
  assume k: "k \<le> m"
  then have "[0..<m] = [0..<k] @ [k..<m]"
    by (metis le_add_diff_inverse upt_add_eq_append zero_le)
  moreover have "[k..<m] = map (\<lambda>j. j + k) [0..<m - k]"
    using k by (simp add: map_add_upt)
  ultimately show ?thesis by (simp add: comp_def)
qed

lemma concat_map_upt_first:
  assumes "0 < k" and "\<And>i. 0 < i \<Longrightarrow> i < k \<Longrightarrow> f i = []"
  shows "concat (map f [0..<k]) = f 0"
proof -
  from assms(1) have "[0..<k] = 0 # [1..<k]"
    by (simp add: upt_conv_Cons)
  moreover have "concat (map f [1..<k]) = []"
    using assms(2) by auto
  ultimately show ?thesis by simp
qed

lemma char_before_shift:
  assumes "j + Suc k' \<le> length s"
  shows "(if j = 0 then char_at s k' else Some (drop (Suc k') s ! (j - 1)))
           = Some (s ! (j + k'))"
  using assms by (cases j) (simp_all add: char_at_def nth_drop add.commute)

lemma is_digit_is_word: "is_digit x \<Longrightarrow> is_word x"
  by (auto simp: is_digit_def is_word_def Let_def)

lemma year_group_digits:
  "year_group s \<Longrightarrow>
     4 \<le> length s \<and> is_digit (s ! 0) \<and> is_digit (s ! 1) \<and> is_digit (s ! 2) \<and> is_digit (s ! 3)"
  by (auto simp: year_group_def is_digit_def split: list.splits)

lemma year_match_not_after_digit:
  "is_digit x \<Longrightarrow> \<not> year_match (Some x) t"
proof
  assume x: "is_digit x" and m: "year_match (Some x) t"
  from m have g: "year_group t" and b: "word_boundary (Some x) (char_at t 0)"
    by (simp_all add: year_match_def)
  from year_group_digits [OF g] have "is_word_opt (char_at t 0)"
    by (auto simp: char_at_def is_word_opt_def is_digit_is_word)
  with x b show False
    by (simp add: word_boundary_def is_word_opt_def is_digit_is_word)
qed

lemma year_match_interior:
  assumes "year_match prev s" and "0 < i" and "i < 4"
  shows "\<not> year_match (Some (s ! (i - 1))) (drop i s)"
proof -
  from assms(1) have "year_group s" by (simp add: year_match_def)
  from year_group_digits [OF this] assms(2,3) have "is_digit (s ! (i - 1))"
    by (cases "i = 1"; cases "i = 2"; cases "i = 3") (auto simp: numeral_2_eq_2 numeral_3_eq_3)
  then show ?thesis by (rule year_match_not_after_digit)
qed

lemma positions_shift:
  assumes "k = Suc k'" and "k \<le> length s"
  shows "concat (map (\<lambda>j. F (if j = 0 then char_at s k' else Some (drop k s ! (j - 1)))
                           (drop j (drop k s)))
                  [0..<length (drop k s)])
       = concat (map (\<lambda>j. F (if j + k = 0 then prev else Some (s ! (j + k - 1)))
                           (drop (j + k) s))
                  [0..<length s - k])"
proof (intro arg_cong [where f = concat] map_cong)
  show "[0..<length (drop k s)] = [0..<length s - k]" by simp
next
  fix j assume "j \<in> set [0..<length s - k]"
  with assms have j: "j + Suc k' \<le> length s" by simp
  have A: "(if j = 0 then char_at s k' else Some (drop k s ! (j - 1))) = Some (s ! (j + k'))"
    unfolding assms(1) by (rule char_before_shift [OF j])
  have B: "j + k - 1 = j + k'" and C: "(j + k = 0) = False"
    using assms(1) by simp_all
  show "F (if j = 0 then char_at s k' else Some (drop k s ! (j - 1))) (drop j (drop k s))
       = F (if j + k = 0 then prev else Some (s ! (j + k - 1))) (drop (j + k) s)"
    by (simp only: A B C if_False drop_drop)
qed

lemma findall_years_positions:
  "findall_years prev s =
     concat (map (\<lambda>i. if year_match (if i = 0 then prev else Some (s ! (i - 1))) (drop i s)
                      then [take 4 (drop i s)] else [])
               [0..<length s])"
proof (induction prev s rule: findall_years.induct)
  case (1 prev)
  show ?case by simp
next
  case (2 prev c cs)
  let ?s = "c # cs"
  let ?f = "\<lambda>i. if year_match (if i = 0 then prev else Some (?s ! (i - 1))) (drop i ?s)
                      then [take 4 (drop i ?s)] else []"
  show ?case
  proof (cases "year_match prev ?s")
    case True
    then have len: "4 \<le> length ?s"
      using year_group_digits [of ?s] by (simp add: year_match_def)
    have inner: "?f i = []" if "0 < i" "i < 4" for i
      using year_match_interior [OF True that] that by simp
    have rest: "findall_years (char_at ?s 3) (drop 4 ?s)
            = concat (map (\<lambda>j. ?f (j + 4)) [0..<length ?s - 4])"
      unfolding "2.IH"(1) [OF True]
      by (rule positions_shift [where F = "\<lambda>p t. if year_match p t then [take 4 t] else []",
            OF _ len]) simp
    have first: "concat (map ?f [0..<4]) = ?f 0"
      by (rule concat_map_upt_first) (simp_all only: inner)
    have zero: "?f 0 = [take 4 ?s]"
      using True by simp
    have "findall_years prev ?s = take 4 ?s # findall_years (char_at ?s 3) (drop 4 ?s)"
      using True by simp
    also have "\<dots> = concat (map ?f [0..<4]) @ concat (map (\<lambda>j. ?f (j + 4)) [0..<length ?s - 4])"
      unfolding rest first zero by simp
    also have "\<dots> = concat (map ?f [0..<length ?s])"
      by (rule concat_map_upt_split [OF len, symmetric])
    finally show ?thesis .
  next
    case False
    have rest: "findall_years (Some c) cs = concat (map (\<lambda>j. ?f (j + 1)) [0..<length ?s - 1])"
      unfolding "2.IH"(2) [OF False]
    proof (intro arg_cong [where f = concat] map_cong refl)
      fix j assume "j \<in> set [0..<length ?s - 1]"
      show "(if year_match (if j = 0 then Some c else Some (cs ! (j - 1))) (drop j cs)
             then [take 4 (drop j cs)] else []) = ?f (j + 1)"
        by (cases j) simp_all
    qed simp
    have zero: "?f 0 = []"
      using False by simp
    have one: "concat (map ?f [0..<1]) = ?f 0"
      by simp
    have "findall_years prev ?s = findall_years (Some c) cs"
      using False by simp
    also have "\<dots> = concat (map ?f [0..<1]) @ concat (map (\<lambda>j. ?f (j + 1)) [0..<length ?s - 1])"
      unfolding rest one zero by simp
    also have "\<dots> = concat (map ?f [0..<length ?s])"
      by (rule concat_map_upt_split [of 1 "length ?s" ?f, symmetric]) simp
    finally show ?thesis .
  qed
qed

lemma lower_char_digit: "is_digit x \<Longrightarrow> lower_char x = x"
  by (auto simp: is_digit_def lower_char_def Let_def)

lemma lower_no_digits:
  assumes "\<forall>y \<in> set (lower t). \<not> is_digit y"
  shows "\<forall>x \<in> set t. \<not> is_digit x"
proof
  fix x assume x: "x \<in> set t"
  show "\<not> is_digit x"
  proof
    assume d: "is_digit x"
    from x have "lower_char x \<in> set (lower t)" by (simp add: lower_def)
    with d assms show False by (simp add: lower_char_digit)
  qed
qed

lemma suffix_no_digits:
  "lower suf \<in> set [''st'', ''nd'', ''rd'', ''th''] \<Longrightarrow> \<forall>x \<in> set suf. \<not> is_digit x"
  by (rule lower_no_digits) (auto simp: is_digit_def)

lemma century_no_digits: "lower c7 = ''century'' \<Longrightarrow> \<forall>x \<in> set c7. \<not> is_digit x"
  by (rule lower_no_digits) (simp add: is_digit_def)

lemma is_space_not_digit: "is_space x \<Longrightarrow> \<not> is_digit x"
  by (auto simp: is_space_def is_digit_def Let_def)

lemma if_if_Some:
  "(if A then (if B then Some X else None) else None) = Some Y \<Longrightarrow> A \<and> B \<and> X = Y"
  by (simp split: if_splits)

lemma century_tail_Cons:
  "century_tail (a # b # r0) =
     (if lower [a, b] \<in> set [''st'', ''nd'', ''rd'', ''th'']
      then (if 1 \<le> length (takeWhile is_space r0)
               \<and> lower (take 7 (dropWhile is_space r0)) = ''century''
               \<and> word_boundary (char_at (dropWhile is_space r0) 6)
                    (char_at (dropWhile is_space r0) 7)
            then Some ([a, b], 2 + length (takeWhile is_space r0) + 7)
            else None)
      else None)"
  by (simp only: century_tail_def list.case Let_def)

lemma century_tail_shape:
  assumes "century_tail r = Some (suf, m)"
  shows "\<exists>w c7 rest. r = suf @ w @ c7 @ rest \<and> m = 2 + length w + 7
           \<and> length suf = 2 \<and> length c7 = 7
           \<and> lower suf \<in> set [''st'', ''nd'', ''rd'', ''th'']
           \<and> w \<noteq> [] \<and> (\<forall>x \<in> set w. is_space x) \<and> lower c7 = ''century''"
proof -
  have "\<exists>a b r0. r = a # b # r0"
  proof (cases r)
    case Nil
    with assms show ?thesis by (simp add: century_tail_def)
  next
    case (Cons a r1)
    show ?thesis
    proof (cases r1)
      case Nil
      with \<open>r = a # r1\<close> assms show ?thesis by (simp add: century_tail_def)
    next
      case (Cons b r0)
      with \<open>r = a # r1\<close> show ?thesis by blast
    qed
  qed
  then obtain a b r0 where r: "r = a # b # r0" by blast
  let ?w = "takeWhile is_space r0"
  let ?c7 = "take 7 (dropWhile is_space r0)"
  let ?rest = "drop 7 (dropWhile is_space r0)"
  from assms have "century_tail (a # b # r0) = Some (suf, m)" by (simp only: r)
  then have all: "lower [a, b] \<in> set [''st'', ''nd'', ''rd'', ''th'']
      \<and> (1 \<le> length ?w \<and> lower ?c7 = ''century''
         \<and> word_boundary (char_at (dropWhile is_space r0) 6)
              (char_at (dropWhile is_space r0) 7))
      \<and> ([a, b], 2 + length ?w + 7) = (suf, m)"
    unfolding century_tail_Cons by (rule if_if_Some)
  then have suf: "suf = [a, b]" and m: "m = 2 + length ?w + 7"
    and low: "lower suf \<in> set [''st'', ''nd'', ''rd'', ''th'']"
    and n: "1 \<le> length ?w" and c: "lower ?c7 = ''century''"
    by blast+
  have "r = suf @ ?w @ ?c7 @ ?rest"
    by (simp add: r suf)
  moreover have "length (lower ?c7) = 7" unfolding c by simp
  then have "length ?c7 = 7" by (simp only: lower_def length_map)
  moreover have "\<forall>x \<in> set ?w. is_space x" by (auto dest: set_takeWhileD)
  moreover from n have "?w \<noteq> []" by auto
  moreover have "length suf = 2" by (simp add: suf)
  ultimately show ?thesis
    using m low c by blast
qed

lemma century_match_shape:
  assumes "century_match prev s = Some (d, suf, n)"
  shows "\<exists>w c7 rest. s = d @ suf @ w @ c7 @ rest \<and> n = length d + 2 + length w + 7
           \<and> d \<noteq> [] \<and> length d \<le> 2 \<and> (\<forall>x \<in> set d. is_digit x)
           \<and> length suf = 2 \<and> length c7 = 7
           \<and> lower suf \<in> set [''st'', ''nd'', ''rd'', ''th'']
           \<and> w \<noteq> [] \<and> (\<forall>x \<in> set w. is_space x) \<and> lower c7 = ''century''"
proof -
  from assms obtain r m where "s = d @ r" "century_tail r = Some (suf, m)" "n = length d + m"
    "d \<noteq> []" "length d \<le> 2" "\<forall>x \<in> set d. is_digit x"
    by (auto simp: century_match_def century_groups_def Let_def
        split: if_splits list.splits option.splits)
  with century_tail_shape [of r suf m] show ?thesis
    by auto
qed

lemma century_groups_nondigit: "\<not> is_digit x \<Longrightarrow> century_groups (x # t) = None"
  by (simp add: century_groups_def split: list.splits)

lemma century_match_after_digit:
  assumes "is_digit x" and "is_digit y"
  shows "century_match (Some x) (y # t) = None"
  using assms
  by (simp add: century_match_def word_boundary_def is_word_opt_def char_at_def
      is_digit_is_word)

lemma century_match_interior:
  assumes "century_match prev s = Some (d, suf, n)" and "0 < i" and "i < n"
  shows "century_match (Some (s ! (i - 1))) (drop i s) = None"
proof -
  from century_match_shape [OF assms(1)] obtain w c7 rest where
    s: "s = d @ suf @ w @ c7 @ rest" and n: "n = length d + 2 + length w + 7"
    and d: "d \<noteq> []" "length d \<le> 2" "\<forall>x \<in> set d. is_digit x"
    and len: "length suf = 2" "length c7 = 7"
    and suf: "lower suf \<in> set [''st'', ''nd'', ''rd'', ''th'']"
    and w: "\<forall>x \<in> set w. is_space x" and c7: "lower c7 = ''century''"
    by blast
  let ?m = "suf @ w @ c7"
  have m: "\<forall>x \<in> set ?m. \<not> is_digit x"
    using suffix_no_digits [OF suf] century_no_digits [OF c7] w
    by (auto dest: is_space_not_digit)
  have sm: "s = d @ ?m @ rest" by (simp add: s)
  have nm: "n = length d + length ?m" by (simp add: n len)
  from assms(3) nm sm have i: "i < length s" by simp
  then have drop: "drop i s = s ! i # drop (Suc i) s"
    by (simp add: Cons_nth_drop_Suc)
  show ?thesis
  proof (cases "i < length d")
    case True
    then have "i - 1 < length d" by arith
    with d(3) sm have "is_digit (s ! (i - 1))"
      by (simp add: nth_append)
    moreover from True d(3) sm have "is_digit (s ! i)"
      by (simp add: nth_append)
    ultimately show ?thesis
      unfolding drop by (rule century_match_after_digit)
  next
    case False
    with assms(3) nm have "i - length d < length ?m" by simp
    then have "?m ! (i - length d) \<in> set ?m" by (rule nth_mem)
    moreover from False sm \<open>i - length d < length ?m\<close>
    have "s ! i = ?m ! (i - length d)"
      by (metis nth_append)
    ultimately have "\<not> is_digit (s ! i)" using m by simp
    then show ?thesis
      unfolding drop by (simp add: century_match_def century_groups_nondigit)
  qed
qed

lemma century_match_within:
  assumes "century_match prev s = Some (d, suf, n)"
  shows "n \<le> length s"
proof -
  from century_match_shape [OF assms] obtain w c7 rest where
    "s = d @ suf @ w @ c7 @ rest" "n = length d + 2 + length w + 7"
    "length suf = 2" "length c7 = 7"
    by blast
  then show ?thesis by simp
qed

lemma findall_centuries_positions:
  "findall_centuries prev s =
     concat (map (\<lambda>i. case century_match (if i = 0 then prev else Some (s ! (i - 1)))
                              (drop i s) of
                        None \<Rightarrow> []
                      | Some (d, suf, n) \<Rightarrow> [(d, suf)])
               [0..<length s])"
proof (induction prev s rule: findall_centuries.induct)
  case (1 prev)
  show ?case by simp
next
  case (2 prev c cs)
  let ?s = "c # cs"
  let ?F = "\<lambda>p t. case century_match p t of None \<Rightarrow> [] | Some (d, suf, n) \<Rightarrow> [(d, suf)]"
  let ?f = "\<lambda>i. ?F (if i = 0 then prev else Some (?s ! (i - 1))) (drop i ?s)"
  show ?case
  proof (cases "century_match prev ?s")
    case (Some m)
    obtain d suf n where m: "m = (d, suf, n)" by (cases m) auto
    from Some m have match: "century_match prev ?s = Some (d, suf, n)" by simp
    from century_match_length [OF match] obtain k' where n: "n = Suc k'"
      by (cases n) auto
    from century_match_within [OF match] have len: "n \<le> length ?s" .
    have inner: "?f i = []" if "0 < i" "i < n" for i
      using century_match_interior [OF match that] that by simp
    have "findall_centuries (char_at ?s (n - 1)) (drop n ?s)
            = concat (map (\<lambda>j. ?F (if j = 0 then char_at ?s (n - 1)
                                     else Some (drop n ?s ! (j - 1))) (drop j (drop n ?s)))
                        [0..<length (drop n ?s)])"
      by (rule "2.IH"(2) [OF match refl refl])
    also have "\<dots> = concat (map (\<lambda>j. ?F (if j = 0 then char_at ?s k'
                                     else Some (drop n ?s ! (j - 1))) (drop j (drop n ?s)))
                        [0..<length (drop n ?s)])"
      by (simp only: n diff_Suc_1)
    also have "\<dots> = concat (map (\<lambda>j. ?f (j + n)) [0..<length ?s - n])"
      by (rule positions_shift [where F = ?F, OF n len])
    finally have rest: "findall_centuries (char_at ?s (n - 1)) (drop n ?s)
            = concat (map (\<lambda>j. ?f (j + n)) [0..<length ?s - n])" .
    have first: "concat (map ?f [0..<n]) = ?f 0"
      by (rule concat_map_upt_first) (simp_all only: inner century_match_length [OF match])
    have zero: "?f 0 = [(d, suf)]"
      using match by simp
    have "findall_centuries prev ?s
            = (d, suf) # findall_centuries (char_at ?s (n - 1)) (drop n ?s)"
      using match by simp
    also have "\<dots> = concat (map ?f [0..<n]) @ concat (map (\<lambda>j. ?f (j + n)) [0..<length ?s - n])"
      unfolding rest first zero by simp
    also have "\<dots> = concat (map ?f [0..<length ?s])"
      by (rule concat_map_upt_split [OF len, symmetric])
    finally show ?thesis .
  next
    case None
    have rest: "findall_centuries (Some c) cs
                  = concat (map (\<lambda>j. ?f (j + 1)) [0..<length ?s - 1])"
      unfolding "2.IH"(1) [OF None]
    proof (intro arg_cong [where f = concat] map_cong refl)
      fix j assume "j \<in> set [0..<length ?s - 1]"
      show "?F (if j = 0 then Some c else Some (cs ! (j - 1))) (drop j cs) = ?f (j + 1)"
        by (cases j) simp_all
    qed simp
    have zero: "?f 0 = []"
      using None by simp
    have one: "concat (map ?f [0..<1]) = ?f 0"
      by simp
    have "findall_centuries prev ?s = findall_centuries (Some c) cs"
      using None by simp
    also have "\<dots> = concat (map ?f [0..<1]) @ concat (map (\<lambda>j. ?f (j + 1)) [0..<length ?s - 1])"
      unfolding rest one zero by simp
    also have "\<dots> = concat (map ?f [0..<length ?s])"
      by (rule concat_map_upt_split [of 1 "length ?s" ?f, symmetric]) simp
    finally show ?thesis .
  qed
qed

lemma is_digit_order: "is_digit x \<longleftrightarrow> CHR ''0'' \<le> x \<and> x \<le> CHR ''9''"
  by (simp add: is_digit_def less_eq_char_def Let_def)

lemma year_group_range:
  assumes "year_group y" and "length y = 4"
  shows "(''1000'' \<le> y \<and> y \<le> ''1999'') \<or> (''2000'' \<le> y \<and> y \<le> ''2029'')"
proof -
  from assms obtain a b c d where y: "y = [a, b, c, d]"
    by (auto simp: year_group_def split: list.splits)
  from assms(1) consider
      "a = CHR ''1''" "is_digit b" "is_digit c" "is_digit d"
    | "a = CHR ''2''" "b = CHR ''0''" "c \<in> set ''012''" "is_digit d"
    unfolding y year_group_def by auto
  then show ?thesis
  proof cases
    case 1
    then have "''1000'' \<le> y \<and> y \<le> ''1999''"
      unfolding y is_digit_order by auto
    then show ?thesis ..
  next
    case 2
    then have "''2000'' \<le> y \<and> y \<le> ''2029''"
      unfolding y is_digit_order by auto
    then show ?thesis ..
  qed
qed

lemma findall_centuries_sound:
  assumes "(d, suf) \<in> set (findall_centuries None s)"
  shows "d \<noteq> [] \<and> length d \<le> 2 \<and> (\<forall>x \<in> set d. is_digit x)
         \<and> lower suf \<in> set [''st'', ''nd'', ''rd'', ''th'']"
proof -
  from assms obtain i where
    "(d, suf) \<in> set (case century_match (if i = 0 then None else Some (s ! (i - 1)))
                              (drop i s) of
                        None \<Rightarrow> []
                      | Some (d, suf, n) \<Rightarrow> [(d, suf)])"
    unfolding findall_centuries_positions [of None s] by auto
  then obtain n where
    "century_match (if i = 0 then None else Some (s ! (i - 1))) (drop i s) = Some (d, suf, n)"
    by (cases "century_match (if i = 0 then None else Some (s ! (i - 1))) (drop i s)") auto
  from century_match_shape [OF this] show ?thesis by blast
qed

lemma timeline_of_text:
  assumes "set_order iter"
  shows "\<exists>timeline.
       extract_historical_dates iter (JStr s) = Inr (take 5 timeline)
       \<and> sorted (map period timeline)
       \<and> mset timeline =
           image_mset (\<lambda>y. \<lparr>period = y, type = ''year''\<rparr>)
             (mset_set (set (findall_years None s)))
           + image_mset (\<lambda>(c, suf). \<lparr>period = c @ suf @ '' century'', type = ''century''\<rparr>)
               (mset (findall_centuries None s))"
proof -
  let ?timeline = "sort_key period
             (map (\<lambda>y. \<lparr>period = y, type = ''year''\<rparr>) (iter (findall_years None s))
              @ map (\<lambda>(c, suf). \<lparr>period = c @ suf @ '' century'', type = ''century''\<rparr>)
                  (findall_centuries None s))"
  from assms have "set (iter []) = set []"
    unfolding set_order_def by blast
  then have "iter [] = []" by simp
  have "extract_historical_dates iter (JStr s) = Inr (take 5 ?timeline)"
  proof (cases "s = []")
    case True
    with \<open>iter [] = []\<close> show ?thesis
      by (simp add: extract_historical_dates_JStr)
  next
    case False
    then show ?thesis
      by (simp only: extract_historical_dates_JStr if_False)
  qed
  moreover have "sorted (map period ?timeline)"
    by (rule sorted_sort_key)
  moreover have "mset ?timeline =
           image_mset (\<lambda>y. \<lparr>period = y, type = ''year''\<rparr>)
             (mset_set (set (findall_years None s)))
           + image_mset (\<lambda>(c, suf). \<lparr>period = c @ suf @ '' century'', type = ''century''\<rparr>)
               (mset (findall_centuries None s))"
    by (simp add: set_order_mset [OF assms])
  ultimately show ?thesis by blast
qed

text \<open>
  C2. For every text, the result of \<open>extract_historical_dates\<close> is the first five entries
  of a list that is sorted by the period string in the lexicographic order of strings
  and that holds one year entry for every distinct match of the year pattern and one
  century entry for every match of the century pattern, repeated matches included. The
  matches are those of every position of the text at which the pattern matches: a year is
  a word-bounded group of four digits from 1000 to 1999 or from 2000 to 2029, a century has
  one or two digits and one of the suffixes st, nd, rd, th in any case.
\<close>

theorem C2_timeline:
  "(set_order iter \<longrightarrow>
     (\<exists>timeline.
        extract_historical_dates iter (JStr s) = Inr (take 5 timeline)
        \<and> length (take 5 timeline) \<le> 5
        \<and> sorted (map period timeline)
        \<and> mset timeline =
            image_mset (\<lambda>y. \<lparr>period = y, type = ''year''\<rparr>)
              (mset_set (set (findall_years None s)))
            + image_mset (\<lambda>(c, suf). \<lparr>period = c @ suf @ '' century'', type = ''century''\<rparr>)
                (mset (findall_centuries None s))))
   \<and> findall_years None s =
       concat (map (\<lambda>i. if year_match (if i = 0 then None else Some (s ! (i - 1))) (drop i s)
                        then [take 4 (drop i s)] else [])
                 [0..<length s])
   \<and> findall_centuries None s =
       concat (map (\<lambda>i. case century_match (if i = 0 then None else Some (s ! (i - 1)))
                                (drop i s) of
                          None \<Rightarrow> []
                        | Some (d, suf, n) \<Rightarrow> [(d, suf)])
                 [0..<length s])
   \<and> (\<forall>y \<in> set (findall_years None s).
         length y = 4 \<and> (\<forall>x \<in> set y. is_digit x)
         \<and> ((''1000'' \<le> y \<and> y \<le> ''1999'') \<or> (''2000'' \<le> y \<and> y \<le> ''2029'')))
   \<and> (\<forall>(d, suf) \<in> set (findall_centuries None s).
         d \<noteq> [] \<and> length d \<le> 2 \<and> (\<forall>x \<in> set d. is_digit x)
         \<and> lower suf \<in> set [''st'', ''nd'', ''rd'', ''th''])"
proof -
  have A: "set_order iter \<longrightarrow>
     (\<exists>timeline.
        extract_historical_dates iter (JStr s) = Inr (take 5 timeline)
        \<and> length (take 5 timeline) \<le> 5
        \<and> sorted (map period timeline)
        \<and> mset timeline =
            image_mset (\<lambda>y. \<lparr>period = y, type = ''year''\<rparr>)
              (mset_set (set (findall_years None s)))
            + image_mset (\<lambda>(c, suf). \<lparr>period = c @ suf @ '' century'', type = ''century''\<rparr>)
                (mset (findall_centuries None s)))"
    using timeline_of_text [of iter s] by auto
  have D: "\<forall>y \<in> set (findall_years None s).
         length y = 4 \<and> (\<forall>x \<in> set y. is_digit x)
         \<and> ((''1000'' \<le> y \<and> y \<le> ''1999'') \<or> (''2000'' \<le> y \<and> y \<le> ''2029''))"
  proof
    fix y assume y: "y \<in> set (findall_years None s)"
    from findall_years_sound [OF y] have l: "length y = 4" and g: "year_group y" by simp_all
    from l obtain a b c d where abcd: "y = [a, b, c, d]"
      by (auto simp: length_Suc_conv numeral_eq_Suc)
    from year_group_digits [OF g] have "\<forall>x \<in> set y. is_digit x"
      unfolding abcd by (simp add: numeral_eq_Suc)
    with l year_group_range [OF g l]
    show "length y = 4 \<and> (\<forall>x \<in> set y. is_digit x)
         \<and> ((''1000'' \<le> y \<and> y \<le> ''1999'') \<or> (''2000'' \<le> y \<and> y \<le> ''2029''))"
      by blast
  qed
  have E: "\<forall>(d, suf) \<in> set (findall_centuries None s).
         d \<noteq> [] \<and> length d \<le> 2 \<and> (\<forall>x \<in> set d. is_digit x)
         \<and> lower suf \<in> set [''st'', ''nd'', ''rd'', ''th'']"
    using findall_centuries_sound [of _ _ s] by auto
  from A findall_years_positions [of None s] findall_centuries_positions [of None s] D E
  show ?thesis by (intro conjI)
qed

lemma mixed_text_years:
  "findall_years None ''3rd century, 19th century, 2023, 19th century, 2023, 1857, 1638''
     = [''2023'', ''2023'', ''1857'', ''1638'']"
  by code_simp

lemma mixed_text_centuries:
  "findall_centuries None ''3rd century, 19th century, 2023, 19th century, 2023, 1857, 1638''
     = [(''3'', ''rd''), (''19'', ''th''), (''19'', ''th'')]"
  by code_simp

lemma mixed_text_timeline:
  "extract_historical_dates remdups
     (JStr ''3rd century, 19th century, 2023, 19th century, 2023, 1857, 1638'')
   = Inr [\<lparr>period = ''1638'', type = ''year''\<rparr>, \<lparr>period = ''1857'', type = ''year''\<rparr>,
          \<lparr>period = ''19th century'', type = ''century''\<rparr>,
          \<lparr>period = ''19th century'', type = ''century''\<rparr>,
          \<lparr>period = ''2023'', type = ''year''\<rparr>]"
  by code_simp

theorem C2_timeline_witness:
  "set_order remdups
   \<and> findall_years None ''3rd century, 19th century, 2023, 19th century, 2023, 1857, 1638''
       = [''2023'', ''2023'', ''1857'', ''1638'']
   \<and> findall_centuries None ''3rd century, 19th century, 2023, 19th century, 2023, 1857, 1638''
       = [(''3'', ''rd''), (''19'', ''th''), (''19'', ''th'')]
   \<and> (\<exists>timeline.
        extract_historical_dates remdups
          (JStr ''3rd century, 19th century, 2023, 19th century, 2023, 1857, 1638'')
          = Inr (take 5 timeline)
        \<and> take 5 timeline =
            [\<lparr>period = ''1638'', type = ''year''\<rparr>, \<lparr>period = ''1857'', type = ''year''\<rparr>,
             \<lparr>period = ''19th century'', type = ''century''\<rparr>,
             \<lparr>period = ''19th century'', type = ''century''\<rparr>,
             \<lparr>period = ''2023'', type = ''year''\<rparr>]
        \<and> size (mset timeline) = 6
        \<and> sorted (map period timeline))"
proof -
  let ?T = "''3rd century, 19th century, 2023, 19th century, 2023, 1857, 1638''"
  from C2_timeline [of remdups ?T] set_order_remdups obtain timeline where
    r: "extract_historical_dates remdups (JStr ?T) = Inr (take 5 timeline)" and
    s: "sorted (map period timeline)" and
    m: "mset timeline =
            image_mset (\<lambda>y. \<lparr>period = y, type = ''year''\<rparr>)
              (mset_set (set (findall_years None ?T)))
            + image_mset (\<lambda>(c, suf). \<lparr>period = c @ suf @ '' century'', type = ''century''\<rparr>)
                (mset (findall_centuries None ?T))"
    by blast
  have "card (set [''2023'', ''2023'', ''1857'', ''1638'']) = 3"
    by (simp only: List.card_set) simp
  with m have "size (mset timeline) = 6"
    by (simp only: mixed_text_years mixed_text_centuries size_union size_image_mset
        size_mset_set size_mset) simp
  moreover from r mixed_text_timeline have "take 5 timeline =
            [\<lparr>period = ''1638'', type = ''year''\<rparr>, \<lparr>period = ''1857'', type = ''year''\<rparr>,
             \<lparr>period = ''19th century'', type = ''century''\<rparr>,
             \<lparr>period = ''19th century'', type = ''century''\<rparr>,
             \<lparr>period = ''2023'', type = ''year''\<rparr>]"
    by (simp only: sum.inject)
  ultimately show ?thesis
    using r s set_order_remdups mixed_text_years mixed_text_centuries
    by (intro conjI exI[of _ timeline])
qed

end
